theory Spec2Isabelle
  imports Main
begin

section \<open>Python string primitives used by the crawler\<close>

text \<open>
  Python strings are modelled as \<^typ>\<open>string\<close>. \<open>s.split(sep)\<close> with a one-character
  separator cuts at every occurrence of the separator and never returns an empty list:
  \<open>''.split(':')\<close> is \<open>['']\<close>.
\<close>

fun py_split :: "char \<Rightarrow> string \<Rightarrow> string list" where
  "py_split sep [] = [[]]"
| "py_split sep (c # cs) =
     (if c = sep then [] # py_split sep cs
      else (case py_split sep cs of
              [] \<Rightarrow> [[c]]
            | w # ws \<Rightarrow> (c # w) # ws))"

text \<open>
  \<open>s.replace(old, '')\<close>: the occurrences of \<open>old\<close> are removed from left to right,
  without overlap. With \<open>old = ''\<close> and the empty replacement the string is unchanged.
\<close>

function py_remove :: "string \<Rightarrow> string \<Rightarrow> string" where
  "py_remove old [] = []"
| "py_remove old (c # cs) =
     (if old = [] then c # cs
      else if take (length old) (c # cs) = old
           then py_remove old (drop (length old) (c # cs))
           else c # py_remove old cs)"
  by pat_completeness auto
termination
  by (relation "measure (\<lambda>(old, s). length s)") auto

text \<open>
  \<open>s.lower()\<close>, on the ASCII letters. The crawler only compares the result with the
  ASCII word \<open>arxiv\<close>.
\<close>

definition lower_char :: "char \<Rightarrow> char" where
  "lower_char c =
     (let n = (of_char c :: nat)
      in if 65 \<le> n \<and> n \<le> 90 then char_of (n + 32) else c)"

definition py_lower :: "string \<Rightarrow> string" where
  "py_lower s = map lower_char s"

text \<open>Exceptions. \<open>xs[-2]\<close> raises \<open>IndexError\<close> on a list shorter than two;
  \<open>xs[-1]\<close> and \<open>xs[0]\<close> are only taken of results of \<open>split\<close>, which are never
  empty.\<close>

datatype error =
    ValueError string
  | IndexError
  | KeyError string
  | WebDriverException string
  | OSError string

definition index_last_but_one :: "'a list \<Rightarrow> error + 'a" where
  "index_last_but_one xs =
     (case rev xs of
        _ # y # _ \<Rightarrow> Inr y
      | _ \<Rightarrow> Inl IndexError)"

section \<open>Python dictionaries\<close>

text \<open>
  A \<open>dict\<close> is an association list with distinct keys in insertion order:
  \<open>d[k] = v\<close> overwrites in place when \<open>k\<close> is present and appends otherwise.
\<close>

type_synonym ('k, 'v) dict = "('k \<times> 'v) list"

fun dict_set :: "'k \<Rightarrow> 'v \<Rightarrow> ('k, 'v) dict \<Rightarrow> ('k, 'v) dict" where
  "dict_set k v [] = [(k, v)]"
| "dict_set k v (p # ps) = (if fst p = k then (k, v) # ps else p # dict_set k v ps)"

definition dict_get :: "('k, 'v) dict \<Rightarrow> 'k \<Rightarrow> 'v option" where
  "dict_get d k = map_of d k"

section \<open>Link discovery\<close>

subsection \<open>\<open>_get_related_links\<close>\<close>

definition sort_map :: "(string, string) dict" where
  "sort_map =
     [(''downloads'', ''downloads''),
      (''updated'', ''modified''),
      (''created'', ''created''),
      (''alphabetical'', ''alphabetical''),
      (''likes'', ''likes''),
      (''rowsMost'', ''most_rows''),
      (''rowsLeast'', ''least_rows'')]"

definition get_related_links :: "string \<Rightarrow> string option \<Rightarrow> error + string" where
  "get_related_links sort_method current_link =
     (case current_link of
        None \<Rightarrow> Inl (ValueError ''current_link cannot be None.'')
      | Some l \<Rightarrow>
          (case dict_get sort_map sort_method of
             None \<Rightarrow> Inl (ValueError ''Invalid sort_method.'')
           | Some s \<Rightarrow> Inr (l @ ''?sort_datasets='' @ s @ ''#datasets'')))"

subsection \<open>What the browser shows for a listing URL\<close>

text \<open>
  The browser is an external collaborator. For a listing URL it is described by the
  outcome of each driver call that \<open>crawl_dataset_links\<close> makes on it; \<open>Inl\<close> or
  \<open>Some e\<close> is a raised exception. An article is the outcome of finding its anchor and
  reading the anchor's \<open>href\<close>.
\<close>

record 'l listing =
  get_listing :: "error option"
  expand_click :: "error option"
  articles :: "error + (error + 'l) list"

datatype 'l log_entry =
    InfoScrawling string string
  | InfoNoExpandButton
  | InfoHaveDatasets nat
  | InfoGotLink 'l
  | ErrorCrawling error string

record 'l discovery =
  organization_datasets_links :: "(string, 'l list) dict"
  discovery_log :: "'l log_entry list"

definition logging :: "'l log_entry \<Rightarrow> 'l discovery \<Rightarrow> 'l discovery" where
  "logging entry st = st\<lparr>discovery_log := discovery_log st @ [entry]\<rparr>"

text \<open>Lines 113 to 115: create the organization's list when absent, then append.\<close>

definition append_link :: "string \<Rightarrow> 'l \<Rightarrow> (string, 'l list) dict \<Rightarrow> (string, 'l list) dict" where
  "append_link index dataset_link d =
     (let d1 = (if dict_get d index = None then dict_set index [] d else d)
      in case dict_get d1 index of
           None \<Rightarrow> d1
         | Some ls \<Rightarrow> dict_set index (ls @ [dataset_link]) d1)"

text \<open>The loop over the articles (lines 110 to 116). It stops at the first article that
  raises; what was appended before stays in the state.\<close>

fun collect_articles ::
  "string \<Rightarrow> (error + 'l) list \<Rightarrow> 'l discovery \<Rightarrow> error option \<times> 'l discovery" where
  "collect_articles index [] st = (None, st)"
| "collect_articles index (a # as) st =
     (case a of
        Inl e \<Rightarrow> (Some e, st)
      | Inr dataset_link \<Rightarrow>
          collect_articles index as
            (logging (InfoGotLink dataset_link)
               (st\<lparr>organization_datasets_links :=
                     append_link index dataset_link (organization_datasets_links st)\<rparr>)))"

text \<open>The body of the \<open>try\<close> block of one organization (lines 94 to 116). The first
  component is the exception that leaves the block, if any.\<close>

definition organization_body ::
  "string \<Rightarrow> (string \<Rightarrow> 'l listing) \<Rightarrow> string \<Rightarrow> string option \<Rightarrow> 'l discovery
     \<Rightarrow> error option \<times> 'l discovery" where
  "organization_body sort_method web index target st =
     (case target of
        None \<Rightarrow> (None, st)
      | Some t \<Rightarrow>
          if t = [] then (None, st)
          else
            (let st1 = logging (InfoScrawling index t) st
             in (case get_related_links sort_method target of
                   Inl e \<Rightarrow> (Some e, st1)
                 | Inr url \<Rightarrow>
                     (case get_listing (web url) of
                        Some e \<Rightarrow> (Some e, st1)
                      | None \<Rightarrow>
                          (let st2 = (case expand_click (web url) of
                                       Some _ \<Rightarrow> logging InfoNoExpandButton st1
                                     | None \<Rightarrow> st1)
                           in (case articles (web url) of
                                 Inl e \<Rightarrow> (Some e, st2)
                               | Inr arts \<Rightarrow>
                                   collect_articles index arts
                                     (logging (InfoHaveDatasets (length arts)) st2)))))))"

text \<open>The loop over the organizations with its \<open>except Exception\<close> handler
  (lines 91 to 118).\<close>

fun crawl_loop ::
  "string \<Rightarrow> (string \<Rightarrow> 'l listing) \<Rightarrow> (string \<times> string option) list \<Rightarrow> 'l discovery
     \<Rightarrow> 'l discovery" where
  "crawl_loop sort_method web [] st = st"
| "crawl_loop sort_method web ((index, target) # rest) st =
     (case organization_body sort_method web index target st of
        (None, st') \<Rightarrow> crawl_loop sort_method web rest st'
      | (Some e, st') \<Rightarrow> crawl_loop sort_method web rest (logging (ErrorCrawling e index) st'))"

text \<open>
  \<open>crawl_dataset_links\<close>. Reading the organization file and writing the result file are
  outside every \<open>try\<close>. The result \<open>Inr st\<close> is a run that returned; the file then
  holds \<open>organization_datasets_links st\<close>, written once, after the loop.
\<close>

record 'l discovery_env =
  organization_links_file :: "error + (string \<times> string option) list"
  listing_of :: "string \<Rightarrow> 'l listing"
  write_links_file :: "error option"

definition crawl_dataset_links :: "string \<Rightarrow> 'l discovery_env \<Rightarrow> error + 'l discovery" where
  "crawl_dataset_links sort_method env =
     (case organization_links_file env of
        Inl e \<Rightarrow> Inl e
      | Inr crawl_targets \<Rightarrow>
          (let st = crawl_loop sort_method (listing_of env) crawl_targets
                      \<lparr>organization_datasets_links = [], discovery_log = []\<rparr>
           in (case write_links_file env of
                 Some e \<Rightarrow> Inl e
               | None \<Rightarrow> Inr st)))"

section \<open>Record extraction\<close>

subsection \<open>Text helpers\<close>

definition squote :: string where
  "squote = [CHR 0x27]"

definition dquote :: string where
  "dquote = [CHR 0x22]"

text \<open>\<open>.replace("'", '').replace('"', '')\<close>\<close>

definition remove_quotes :: "string \<Rightarrow> string" where
  "remove_quotes s = py_remove dquote (py_remove squote s)"

text \<open>\<open>.replace('"', '').replace("'", '')\<close>, the order of lines 298 to 301 and 373.\<close>

definition remove_quotes_rev :: "string \<Rightarrow> string" where
  "remove_quotes_rev s = py_remove squote (py_remove dquote s)"

text \<open>\<open>s.strip()\<close>, on the ASCII whitespace characters.\<close>

definition is_space :: "char \<Rightarrow> bool" where
  "is_space c = (let n = (of_char c :: nat) in (9 \<le> n \<and> n \<le> 13) \<or> (28 \<le> n \<and> n \<le> 32))"

definition py_strip :: "string \<Rightarrow> string" where
  "py_strip s = rev (dropWhile is_space (rev (dropWhile is_space s)))"

subsection \<open>The parsed markup of the related-artifacts section\<close>

text \<open>
  \<open>BeautifulSoup(section_html, 'html.parser')\<close> is a tree of tags and strings; the
  document itself is the list of its top-level nodes.
\<close>

datatype node =
    Tag string "(string, string) dict" "node list"
  | NavigableString string

fun is_tag :: "node \<Rightarrow> bool" where
  "is_tag (Tag n a cs) = True"
| "is_tag (NavigableString s) = False"

fun named :: "string \<Rightarrow> node \<Rightarrow> bool" where
  "named name (Tag n a cs) = (n = name)"
| "named name (NavigableString s) = False"

fun attrs :: "node \<Rightarrow> (string, string) dict" where
  "attrs (Tag n a cs) = a"
| "attrs (NavigableString s) = []"

text \<open>\<open>.text\<close>: all strings below the node, in document order.\<close>

fun get_text :: "node \<Rightarrow> string" where
  "get_text (NavigableString s) = s"
| "get_text (Tag n a cs) = concat (map get_text cs)"

text \<open>The nodes below a node, in document order.\<close>

fun descendants :: "node \<Rightarrow> node list" where
  "descendants (NavigableString s) = []"
| "descendants (Tag n a cs) = concat (map (\<lambda>c. c # descendants c) cs)"

text \<open>\<open>tag.find(name)\<close>: the first tag of that name below the node, or \<open>None\<close>.\<close>

definition find_tag :: "string \<Rightarrow> node \<Rightarrow> node option" where
  "find_tag name n = List.find (named name) (descendants n)"

text \<open>\<open>tag.find_all('a', href=True)\<close>: the anchors below the node that have the attribute.\<close>

definition find_all_a_href :: "node \<Rightarrow> node list" where
  "find_all_a_href n =
     filter (\<lambda>d. named ''a'' d \<and> dict_get (attrs d) ''href'' \<noteq> None) (descendants n)"

text \<open>
  Every tag of a document in document order, each with the result of its
  \<open>find_next_siblings()\<close>: the tags (not the strings) that follow it under its parent.
\<close>

fun tags_with_next_siblings :: "node list \<Rightarrow> (node \<times> node list) list" where
  "tags_with_next_siblings [] = []"
| "tags_with_next_siblings (NavigableString s # cs) = tags_with_next_siblings cs"
| "tags_with_next_siblings (Tag n a ks # cs) =
     (Tag n a ks, filter is_tag cs) # tags_with_next_siblings ks @ tags_with_next_siblings cs"

text \<open>\<open>soup.find_all('h2')\<close>, each heading with its following sibling tags.\<close>

definition find_all_h2 :: "node list \<Rightarrow> (node \<times> node list) list" where
  "find_all_h2 soup = filter (\<lambda>(t, sibs). named ''h2'' t) (tags_with_next_siblings soup)"

text \<open>
  \<open>sibling == next_h2\<close>: two tags are equal when they have the same name, the same
  attributes (as dictionaries, whatever the order) and equal contents.
\<close>

fun node_eq :: "node \<Rightarrow> node \<Rightarrow> bool" where
  "node_eq (NavigableString s) (NavigableString t) = (s = t)"
| "node_eq (Tag n a cs) (Tag m b ds) = (n = m \<and> set a = set b \<and> list_all2 node_eq cs ds)"
| "node_eq (NavigableString s) (Tag m b ds) = False"
| "node_eq (Tag n a cs) (NavigableString t) = False"

subsection \<open>\<open>_extract_models_or_collections_items\<close>\<close>

text \<open>
  \<open>clean_text\<close> comes from the module \<open>utils\<close>, which is not part of the sources at
  hand. It is a parameter of every function that calls it.
\<close>

type_synonym item = "(string, string) dict"
type_synonym related = "(string, (string, item) dict) dict"

text \<open>\<open>result[sub_title][header] = v\<close>\<close>

definition set_item :: "string \<Rightarrow> string \<Rightarrow> item \<Rightarrow> related \<Rightarrow> error + related" where
  "set_item sub_title header v result =
     (case dict_get result sub_title of
        None \<Rightarrow> Inl (KeyError sub_title)
      | Some bucket \<Rightarrow> Inr (dict_set sub_title (dict_set header v bucket) result))"

text \<open>Line 367.\<close>

definition header_of :: "(string \<Rightarrow> string) \<Rightarrow> node \<Rightarrow> string" where
  "header_of clean_text a_tag =
     (case find_tag ''header'' a_tag of
        Some h \<Rightarrow> clean_text (get_text h)
      | None \<Rightarrow> ''expand'')"

text \<open>\<open>a_tag.find('div').find('div')\<close>, when both exist.\<close>

definition nested_div :: "node \<Rightarrow> node option" where
  "nested_div a_tag =
     (case find_tag ''div'' a_tag of
        None \<Rightarrow> None
      | Some d \<Rightarrow> find_tag ''div'' d)"

text \<open>One pass of the loop body (lines 367 to 373).\<close>

definition extract_item ::
  "(string \<Rightarrow> string) \<Rightarrow> node \<Rightarrow> related \<Rightarrow> string \<Rightarrow> error option \<times> related" where
  "extract_item clean_text a_tag result sub_title =
     (let header = header_of clean_text a_tag
      in case set_item sub_title header [] result of
           Inl e \<Rightarrow> (Some e, result)
         | Inr result1 \<Rightarrow>
             (case (if header \<noteq> ''expand'' then nested_div a_tag else None) of
                Some inner \<Rightarrow>
                  (case dict_get (attrs a_tag) ''href'' of
                     None \<Rightarrow> (Some (KeyError ''href''), result1)
                   | Some h \<Rightarrow>
                       (case set_item sub_title header
                               [(''href'', h), (''text'', clean_text (get_text inner))] result1 of
                          Inl e \<Rightarrow> (Some e, result1)
                        | Inr result2 \<Rightarrow> (None, result2)))
              | None \<Rightarrow>
                  (case set_item sub_title header
                          [(''other'', remove_quotes_rev (clean_text (get_text a_tag)))] result1 of
                     Inl e \<Rightarrow> (Some e, result1)
                   | Inr result2 \<Rightarrow> (None, result2))))"

fun extract_models_or_collections_items ::
  "(string \<Rightarrow> string) \<Rightarrow> node list \<Rightarrow> related \<Rightarrow> string \<Rightarrow> error option \<times> related" where
  "extract_models_or_collections_items clean_text [] result sub_title = (None, result)"
| "extract_models_or_collections_items clean_text (a_tag # elements) result sub_title =
     (case extract_item clean_text a_tag result sub_title of
        (Some e, result') \<Rightarrow> (Some e, result')
      | (None, result') \<Rightarrow>
          extract_models_or_collections_items clean_text elements result' sub_title)"

subsection \<open>The loops of \<open>_crawl_related_models_or_collections\<close>\<close>

text \<open>The loop over the sibling tags of one heading (lines 343 to 347 and 351 to 353).\<close>

fun siblings_loop ::
  "(string \<Rightarrow> string) \<Rightarrow> node list \<Rightarrow> related \<Rightarrow> string \<Rightarrow> error option \<times> related" where
  "siblings_loop clean_text [] result sub_title = (None, result)"
| "siblings_loop clean_text (sibling # contents) result sub_title =
     (case extract_models_or_collections_items clean_text (find_all_a_href sibling)
             result sub_title of
        (Some e, result') \<Rightarrow> (Some e, result')
      | (None, result') \<Rightarrow> siblings_loop clean_text contents result' sub_title)"

text \<open>
  The loop over the headings (lines 335 to 353). A heading that is not the last owns its
  sibling tags up to the first one equal to the next heading; the last heading owns all
  of its sibling tags.
\<close>

fun h2_loop ::
  "(string \<Rightarrow> string) \<Rightarrow> (node \<times> node list) list \<Rightarrow> related \<Rightarrow> error option \<times> related" where
  "h2_loop clean_text [] result = (None, result)"
| "h2_loop clean_text ((current_h2, contents) # h2_tags) result =
     (let sub_title = clean_text (get_text current_h2);
          result1 = dict_set sub_title [] result;
          bucket = (case h2_tags of
                      [] \<Rightarrow> contents
                    | (next_h2, _) # _ \<Rightarrow> takeWhile (\<lambda>sibling. \<not> node_eq sibling next_h2) contents)
      in case siblings_loop clean_text bucket result1 sub_title of
           (Some e, result') \<Rightarrow> (Some e, result')
         | (None, result') \<Rightarrow> h2_loop clean_text h2_tags result')"

subsection \<open>The record of one dataset\<close>

text \<open>
  The innermost dictionaries of \<open>dataset_details\<close> have a fixed set of keys. A key that
  is absent from the dictionary is \<open>None\<close>; \<open>{}\<close> is \<open>empty_record\<close>.
\<close>

record dataset_record =
  link :: "string option"
  dataset_tags_info :: "(string, string) dict option"
  download_count_last_month :: "string option"
  community :: "string option"
  like :: "string option"
  dataset_info :: "(string, string) dict option"
  dataset_panel_info :: "string option"
  related_models_collections :: "related option"
  paper_screenshot_save_path :: "string option"
  dataset_screenshot_save_path :: "string option"

definition empty_record :: dataset_record where
  "empty_record =
     \<lparr>link = None, dataset_tags_info = None, download_count_last_month = None,
      community = None, like = None, dataset_info = None, dataset_panel_info = None,
      related_models_collections = None, paper_screenshot_save_path = None,
      dataset_screenshot_save_path = None\<rparr>"

subsection \<open>What the browser shows for a dataset URL\<close>

text \<open>
  As for listings, a page is the outcome of each driver call the extractor makes on it.
  A tag block gives the text of its \<open>span\<close> and its own text; an anchor of the data-info
  panel gives the texts of the \<open>div\<close>s below it.
\<close>

record tag_div =
  span_text :: "error + string"
  div_text :: "error + string"

record page =
  get_page :: "error option"
  need_finish_form :: "error + bool"
  form_items :: "error + error option list"
  finish_form_button :: "error option"
  save_screenshot :: "error option"
  download_count :: "error + string"
  community_text :: "error + string"
  like_text :: "error + string"
  tags_info :: "error + tag_div list"
  data_info_div :: "error + (error + (error + string) list) list"
  panel_present :: "error + bool"
  panel_text :: "error + string"
  section_soup :: "error + node list"

subsection \<open>\<open>_crawl_related_models_or_collections\<close>, the whole step\<close>

text \<open>
  \<open>section\<close> is the outcome of locating the section and parsing its markup. An
  exception inside the \<open>try\<close> is printed and dropped; what \<open>result\<close> holds at that
  moment is stored in the entry (line 356).
\<close>

definition crawl_related_models_or_collections ::
  "(string \<Rightarrow> string) \<Rightarrow> (error + node list) \<Rightarrow> dataset_record \<Rightarrow> dataset_record" where
  "crawl_related_models_or_collections clean_text section r =
     (let result = (case section of
                      Inl e \<Rightarrow> []
                    | Inr soup \<Rightarrow> snd (h2_loop clean_text (find_all_h2 soup) []))
      in r\<lparr>related_models_collections := Some result\<rparr>)"

subsection \<open>\<open>_extract_related_data\<close>\<close>

text \<open>Lines 269, 270 and 273 to 275.\<close>

definition tag_key :: "string \<Rightarrow> string" where
  "tag_key span = py_remove dquote (py_remove squote (py_remove '':'' span))"

definition tag_value :: "(string \<Rightarrow> string) \<Rightarrow> string \<Rightarrow> string \<Rightarrow> string" where
  "tag_value clean_text key text =
     remove_quotes (clean_text (last (py_split CHR '':'' (py_remove key text))))"

definition arxiv_id_of :: "(string \<Rightarrow> string) \<Rightarrow> string \<Rightarrow> string" where
  "arxiv_id_of clean_text v = hd (py_split CHR '' '' (clean_text (last (py_split CHR '':'' v))))"

text \<open>The loop over the tag blocks (lines 268 to 275), on the pair of the tag mapping and
  the identifier found so far.\<close>

fun tags_loop ::
  "(string \<Rightarrow> string) \<Rightarrow> tag_div list \<Rightarrow> (string, string) dict \<times> string
     \<Rightarrow> error + (string, string) dict \<times> string" where
  "tags_loop clean_text [] acc = Inr acc"
| "tags_loop clean_text (d # divs) (dataset_tags_info_map, arxiv_id) =
     (case span_text d of
        Inl e \<Rightarrow> Inl e
      | Inr span \<Rightarrow>
          (case div_text d of
             Inl e \<Rightarrow> Inl e
           | Inr text \<Rightarrow>
               let key = tag_key span;
                   v = tag_value clean_text key text
               in tags_loop clean_text divs
                    (dict_set key v dataset_tags_info_map,
                     if py_lower key = ''arxiv'' then arxiv_id_of clean_text v else arxiv_id)))"

text \<open>The loop over the anchors of the data-info panel (lines 283 to 288).\<close>

fun data_info_loop ::
  "(error + (error + string) list) list \<Rightarrow> (string, string) dict
     \<Rightarrow> error + (string, string) dict" where
  "data_info_loop [] data_info = Inr data_info"
| "data_info_loop (a_tag # a_tags) data_info =
     (case a_tag of
        Inl e \<Rightarrow> Inl e
      | Inr divs \<Rightarrow>
          (case divs of
             [d0, d1] \<Rightarrow>
               (case d0 of
                  Inl e \<Rightarrow> Inl e
                | Inr k \<Rightarrow>
                    (case d1 of
                       Inl e \<Rightarrow> Inl e
                     | Inr v \<Rightarrow> data_info_loop a_tags (dict_set (py_strip k) (py_strip v) data_info)))
           | _ \<Rightarrow> data_info_loop a_tags data_info))"

text \<open>Lines 278 to 288: the value of \<open>data_info\<close>, or the exception that reaches the
  handler of line 293. A located element is always true in \<open>if data_info_div\<close>.\<close>

definition data_info_of :: "page \<Rightarrow> error + (string, string) dict" where
  "data_info_of p =
     (case data_info_div p of
        Inl e \<Rightarrow> Inl e
      | Inr a_tags \<Rightarrow> data_info_loop a_tags [])"

text \<open>Lines 307 to 311.\<close>

definition counter :: "(string \<Rightarrow> string) \<Rightarrow> string \<Rightarrow> string \<Rightarrow> string" where
  "counter clean_text suffix text =
     (if clean_text (py_remove suffix text) \<noteq> []
      then clean_text (py_remove suffix text)
      else ''0'')"

text \<open>
  The function works on \<open>dataset_details[organization][dataset_name]\<close>, which its only
  caller has created. It returns the identifier or the exception that leaves it, and the
  entry as it stands at that moment.
\<close>

definition extract_related_data ::
  "(string \<Rightarrow> string) \<Rightarrow> page \<Rightarrow> dataset_record \<Rightarrow> (error + string) \<times> dataset_record" where
  "extract_related_data clean_text p r =
     (case download_count p of
        Inl e \<Rightarrow> (Inl e, r)
      | Inr download_count_last_month' \<Rightarrow>
     (case community_text p of
        Inl e \<Rightarrow> (Inl e, r)
      | Inr community' \<Rightarrow>
     (case like_text p of
        Inl e \<Rightarrow> (Inl e, r)
      | Inr like' \<Rightarrow>
     (case tags_info p of
        Inl e \<Rightarrow> (Inl e, r)
      | Inr dataset_tags_info_divs \<Rightarrow>
     (case tags_loop clean_text dataset_tags_info_divs ([], []) of
        Inl e \<Rightarrow> (Inl e, r)
      | Inr (dataset_tags_info_map, arxiv_id) \<Rightarrow>
          let r1 = (case data_info_of p of
                      Inl e \<Rightarrow> r
                    | Inr data_info \<Rightarrow> r\<lparr>dataset_info := Some data_info\<rparr>)
          in
     (case panel_present p of
        Inl e \<Rightarrow> (Inl e, r1)
      | Inr present \<Rightarrow>
     (case (if present then panel_text p else Inr []) of
        Inl e \<Rightarrow> (Inl e, r1)
      | Inr text \<Rightarrow>
          let r2 = (if present then r1\<lparr>dataset_panel_info := Some (remove_quotes_rev text)\<rparr>
                    else r1);
              r3 = crawl_related_models_or_collections clean_text (section_soup p) r2;
              r4 = r3\<lparr>dataset_tags_info := Some dataset_tags_info_map\<rparr>;
              r5 = r4\<lparr>download_count_last_month := Some download_count_last_month'\<rparr>;
              r6 = r5\<lparr>community := Some (counter clean_text ''Community'' community')\<rparr>;
              r7 = r6\<lparr>like := Some (counter clean_text ''Like'' like')\<rparr>
          in (Inr arxiv_id, r7))))))))"

subsection \<open>\<open>_get_all_link_data\<close>\<close>

type_synonym details = "(string, (string, dataset_record) dict) dict"

definition screen_shot_save_path :: "string \<Rightarrow> string" where
  "screen_shot_save_path save_dir = save_dir @ ''/hugging_face_dataset_info_screenshots''"

definition dataset_png :: "string \<Rightarrow> string \<Rightarrow> string" where
  "dataset_png save_dir dataset_name =
     screen_shot_save_path save_dir @ ''/'' @ dataset_name @ ''.png''"

definition paper_png :: "string \<Rightarrow> string \<Rightarrow> string" where
  "paper_png save_dir dataset_name =
     screen_shot_save_path save_dir @ ''/'' @ dataset_name @ ''_pdf.png''"

definition arxiv_link :: "string \<Rightarrow> string" where
  "arxiv_link arxiv_id = ''https://arxiv.org/pdf/'' @ arxiv_id"

text \<open>\<open>dataset_details[organization][dataset_name]\<close>, read and written.\<close>

definition get_record :: "details \<Rightarrow> string \<Rightarrow> string \<Rightarrow> dataset_record option" where
  "get_record dataset_details organization dataset_name =
     (case dict_get dataset_details organization of
        None \<Rightarrow> None
      | Some datasets \<Rightarrow> dict_get datasets dataset_name)"

definition set_record :: "string \<Rightarrow> string \<Rightarrow> dataset_record \<Rightarrow> details \<Rightarrow> details" where
  "set_record organization dataset_name r dataset_details =
     (case dict_get dataset_details organization of
        None \<Rightarrow> dataset_details
      | Some datasets \<Rightarrow>
          dict_set organization (dict_set dataset_name r datasets) dataset_details)"

text \<open>Lines 218 to 221.\<close>

definition ensure_entry :: "string \<Rightarrow> string \<Rightarrow> details \<Rightarrow> details" where
  "ensure_entry organization dataset_name dataset_details =
     (let d1 = (if dict_get dataset_details organization = None
                then dict_set organization [] dataset_details
                else dataset_details)
      in if get_record d1 organization dataset_name = None
         then set_record organization dataset_name empty_record d1
         else d1)"

text \<open>Lines 209 to 213: the access form. Each label is the outcome of finding its input
  and typing into it; the first one that raises ends the block.\<close>

definition finish_form :: "page \<Rightarrow> error option" where
  "finish_form p =
     (case need_finish_form p of
        Inl e \<Rightarrow> Some e
      | Inr needed \<Rightarrow>
          if needed then
            (case form_items p of
               Inl e \<Rightarrow> Some e
             | Inr labels \<Rightarrow>
                 (case List.find (\<lambda>x. x \<noteq> None) labels of
                    Some (Some e) \<Rightarrow> Some e
                  | _ \<Rightarrow> finish_form_button p))
          else None)"

text \<open>Lines 228 to 235: the screenshot of the paper.\<close>

definition paper_screenshot :: "(string \<Rightarrow> page) \<Rightarrow> string \<Rightarrow> error option" where
  "paper_screenshot web arxiv_id =
     (if arxiv_id \<noteq> [] then
        (case get_page (web (arxiv_link arxiv_id)) of
           Some e \<Rightarrow> Some e
         | None \<Rightarrow> save_screenshot (web (arxiv_link arxiv_id)))
      else None)"

text \<open>Lines 237 to 242.\<close>

definition final_record :: "string \<Rightarrow> string \<Rightarrow> string \<Rightarrow> string \<Rightarrow> dataset_record" where
  "final_record save_dir url dataset_name arxiv_id =
     empty_record
       \<lparr>link := Some url,
        paper_screenshot_save_path :=
          Some (if arxiv_id \<noteq> [] then paper_png save_dir dataset_name else []),
        dataset_screenshot_save_path := Some (dataset_png save_dir dataset_name)\<rparr>"

text \<open>
  The body of the \<open>try\<close> block of one link (lines 204 to 242). The first component is
  the exception that leaves the block, if any; the second is \<open>dataset_details\<close> as it
  stands at that moment.
\<close>

definition link_body ::
  "(string \<Rightarrow> string) \<Rightarrow> string \<Rightarrow> (string \<Rightarrow> page) \<Rightarrow> string \<Rightarrow> details
     \<Rightarrow> error option \<times> details" where
  "link_body clean_text save_dir web url dataset_details =
     (let p = web url
      in case get_page p of
           Some e \<Rightarrow> (Some e, dataset_details)
         | None \<Rightarrow>
      (case finish_form p of
         Some e \<Rightarrow> (Some e, dataset_details)
       | None \<Rightarrow>
      (case index_last_but_one (py_split CHR ''/'' url) of
         Inl e \<Rightarrow> (Some e, dataset_details)
       | Inr organization \<Rightarrow>
          let dataset_name = last (py_split CHR ''/'' url);
              d1 = ensure_entry organization dataset_name dataset_details
          in
      (case save_screenshot p of
         Some e \<Rightarrow> (Some e, d1)
       | None \<Rightarrow>
      (case get_record d1 organization dataset_name of
         None \<Rightarrow> (Some (KeyError dataset_name), d1)
       | Some r \<Rightarrow>
      (case extract_related_data clean_text p r of
         (Inl e, r') \<Rightarrow> (Some e, set_record organization dataset_name r' d1)
       | (Inr arxiv_id, r') \<Rightarrow>
          let d2 = set_record organization dataset_name r' d1
          in
      (case paper_screenshot web arxiv_id of
         Some e \<Rightarrow> (Some e, d2)
       | None \<Rightarrow>
          (None,
           set_record organization dataset_name
             (final_record save_dir url dataset_name arxiv_id) d2))))))))"

text \<open>The loop over the links with its \<open>except Exception\<close> handler (lines 202 to 245).\<close>

fun links_loop ::
  "(string \<Rightarrow> string) \<Rightarrow> string \<Rightarrow> (string \<Rightarrow> page) \<Rightarrow> string list
     \<Rightarrow> details \<times> string list \<Rightarrow> details \<times> string list" where
  "links_loop clean_text save_dir web [] acc = acc"
| "links_loop clean_text save_dir web (url # all_dataset_links) (dataset_details, exception_links) =
     (case link_body clean_text save_dir web url dataset_details of
        (None, d') \<Rightarrow>
          links_loop clean_text save_dir web all_dataset_links (d', exception_links)
      | (Some e, d') \<Rightarrow>
          links_loop clean_text save_dir web all_dataset_links (d', exception_links @ [url]))"

text \<open>
  \<open>_get_all_link_data\<close>. The login (lines 193 to 198) is outside every \<open>try\<close>:
  \<open>login\<close> is the exception it raises, if any.
\<close>

record extraction_env =
  login :: "error option"
  page_of :: "string \<Rightarrow> page"

definition get_all_link_data ::
  "(string \<Rightarrow> string) \<Rightarrow> string \<Rightarrow> extraction_env \<Rightarrow> string list
     \<Rightarrow> error + details \<times> string list" where
  "get_all_link_data clean_text save_dir env all_dataset_links =
     (case login env of
        Some e \<Rightarrow> Inl e
      | None \<Rightarrow> Inr (links_loop clean_text save_dir (page_of env) all_dataset_links ([], [])))"

section \<open>Auxiliary notions for the properties\<close>

text \<open>The links of a listing that the article loop appends: those before the first
  article that raises.\<close>

fun links_before_failure :: "(error + 'l) list \<Rightarrow> 'l list" where
  "links_before_failure [] = []"
| "links_before_failure (Inl e # arts) = []"
| "links_before_failure (Inr l # arts) = l # links_before_failure arts"

definition enumerated :: "string \<Rightarrow> (string \<Rightarrow> 'l listing) \<Rightarrow> string option \<Rightarrow> 'l list" where
  "enumerated sort_method web target =
     (case target of
        None \<Rightarrow> []
      | Some t \<Rightarrow>
          if t = [] then []
          else (case get_related_links sort_method target of
                  Inl e \<Rightarrow> []
                | Inr url \<Rightarrow>
                    if get_listing (web url) \<noteq> None then []
                    else (case articles (web url) of
                            Inl e \<Rightarrow> []
                          | Inr arts \<Rightarrow> links_before_failure arts)))"

definition extend :: "'l list option \<Rightarrow> 'l list \<Rightarrow> 'l list option" where
  "extend old new = (if new = [] then old else Some ((case old of None \<Rightarrow> [] | Some ls \<Rightarrow> ls) @ new))"


text \<open>
  The first whitespace-separated token of a string, in the words of the specification,
  and the strings that are whitespace-normalized as far as the first token is concerned:
  no leading whitespace, and no whitespace character other than the space.
\<close>

definition first_token :: "string \<Rightarrow> string" where
  "first_token s = takeWhile (\<lambda>c. \<not> is_space c) (dropWhile is_space s)"

definition whitespace_normalized :: "string \<Rightarrow> bool" where
  "whitespace_normalized s =
     ((s \<noteq> [] \<longrightarrow> \<not> is_space (hd s)) \<and> (\<forall>c\<in>set s. is_space c \<longrightarrow> c = CHR '' ''))"


text \<open>
  The two halves of \<open>_extract_related_data\<close>: the readings that abort the record when
  they raise (lines 258 to 275), and what follows the data-info panel (lines 296 to 311),
  as a function of the entry at that point.
\<close>

definition hard_readings ::
  "(string \<Rightarrow> string) \<Rightarrow> page
     \<Rightarrow> error + string \<times> string \<times> string \<times> (string, string) dict \<times> string" where
  "hard_readings clean_text p =
     (case download_count p of
        Inl e \<Rightarrow> Inl e
      | Inr dc \<Rightarrow>
          (case community_text p of
             Inl e \<Rightarrow> Inl e
           | Inr c \<Rightarrow>
               (case like_text p of
                  Inl e \<Rightarrow> Inl e
                | Inr l \<Rightarrow>
                    (case tags_info p of
                       Inl e \<Rightarrow> Inl e
                     | Inr divs \<Rightarrow>
                         (case tags_loop clean_text divs ([], []) of
                            Inl e \<Rightarrow> Inl e
                          | Inr (m, a) \<Rightarrow> Inr (dc, c, l, m, a))))))"

definition after_data_info ::
  "(string \<Rightarrow> string) \<Rightarrow> page \<Rightarrow> string \<times> string \<times> string \<times> (string, string) dict \<times> string
     \<Rightarrow> dataset_record \<Rightarrow> (error + string) \<times> dataset_record" where
  "after_data_info clean_text p readings r1 =
     (case readings of (dc, c, l, m, a) \<Rightarrow>
        (case panel_present p of
           Inl e \<Rightarrow> (Inl e, r1)
         | Inr present \<Rightarrow>
             (case (if present then panel_text p else Inr []) of
                Inl e \<Rightarrow> (Inl e, r1)
              | Inr t \<Rightarrow>
                  (Inr a,
                   (crawl_related_models_or_collections clean_text (section_soup p)
                      (if present then r1\<lparr>dataset_panel_info := Some (remove_quotes_rev t)\<rparr>
                       else r1))
                     \<lparr>dataset_tags_info := Some m,
                      download_count_last_month := Some dc,
                      community := Some (counter clean_text ''Community'' c),
                      like := Some (counter clean_text ''Like'' l)\<rparr>))))"

text \<open>An entry of \<open>dataset_details\<close> that carries the link and both screenshot paths.\<close>

definition populated :: "details \<Rightarrow> string \<Rightarrow> string \<Rightarrow> bool" where
  "populated dataset_details organization dataset_name =
     (case get_record dataset_details organization dataset_name of
        None \<Rightarrow> False
      | Some r \<Rightarrow>
          link r \<noteq> None \<and> paper_screenshot_save_path r \<noteq> None
          \<and> dataset_screenshot_save_path r \<noteq> None)"

text \<open>The exception that leaves the \<open>try\<close> block of a link, if any; it does not depend
  on \<open>dataset_details\<close>.\<close>

definition link_outcome ::
  "(string \<Rightarrow> string) \<Rightarrow> (string \<Rightarrow> page) \<Rightarrow> string \<Rightarrow> error option" where
  "link_outcome clean_text web url =
     (case get_page (web url) of
        Some e \<Rightarrow> Some e
      | None \<Rightarrow>
          (case finish_form (web url) of
             Some e \<Rightarrow> Some e
           | None \<Rightarrow>
               (case index_last_but_one (py_split CHR ''/'' url) of
                  Inl e \<Rightarrow> Some e
                | Inr organization \<Rightarrow>
                    (case save_screenshot (web url) of
                       Some e \<Rightarrow> Some e
                     | None \<Rightarrow>
                         (case fst (extract_related_data clean_text (web url) empty_record) of
                            Inl e \<Rightarrow> Some e
                          | Inr arxiv_id \<Rightarrow> paper_screenshot web arxiv_id)))))"

section \<open>Concrete runs\<close>

text \<open>
  Two organizations. The listing of the first one yields one link and then an article
  whose anchor cannot be found; the listing of the second one yields two links. Every
  other URL fails to load.
\<close>

definition partial_listing :: "string listing" where
  "partial_listing =
     \<lparr>get_listing = None,
      expand_click = Some (WebDriverException ''no such element''),
      articles = Inr [Inr ''https://huggingface.co/datasets/openai/gsm8k'',
                      Inl (WebDriverException ''no such element'')]\<rparr>"

definition full_listing :: "string listing" where
  "full_listing =
     \<lparr>get_listing = None,
      expand_click = None,
      articles = Inr [Inr ''https://huggingface.co/datasets/google/fleurs'',
                      Inr ''https://huggingface.co/datasets/google/xtreme'']\<rparr>"

definition broken_listing :: "string listing" where
  "broken_listing =
     \<lparr>get_listing = Some (WebDriverException ''timeout''),
      expand_click = None,
      articles = Inr []\<rparr>"

definition example_listings :: "string \<Rightarrow> string listing" where
  "example_listings url =
     (if url = ''https://huggingface.co/openai?sort_datasets=downloads#datasets''
      then partial_listing
      else if url = ''https://huggingface.co/google?sort_datasets=downloads#datasets''
      then full_listing
      else broken_listing)"

definition example_discovery_env :: "string discovery_env" where
  "example_discovery_env =
     \<lparr>organization_links_file =
        Inr [(''openai'', Some ''https://huggingface.co/openai''),
             (''google'', Some ''https://huggingface.co/google'')],
      listing_of = example_listings,
      write_links_file = None\<rparr>"

text \<open>
  A dataset page on which every query succeeds, with a licence tag and a paper tag, one
  fact in the data-info panel, a summary panel and one related model. The page of the
  paper loads; every other URL fails to load.
\<close>

definition not_found :: error where
  "not_found = WebDriverException ''no such element''"

definition gsm8k_soup :: "node list" where
  "gsm8k_soup =
     [Tag ''section'' []
        [Tag ''h2'' [] [NavigableString ''Models trained on openai/gsm8k''],
         Tag ''div'' []
           [Tag ''a'' [(''href'', ''/meta-llama/Llama-3'')]
              [Tag ''header'' [] [NavigableString ''meta-llama/Llama-3''],
               Tag ''div'' [] [Tag ''div'' [] [NavigableString ''Text Generation'']]]]]]"

definition gsm8k_page :: page where
  "gsm8k_page =
     \<lparr>get_page = None,
      need_finish_form = Inr False,
      form_items = Inr [],
      finish_form_button = None,
      save_screenshot = None,
      download_count = Inr ''412,135'',
      community_text = Inr ''Community'',
      like_text = Inr ''Like 57'',
      tags_info = Inr [\<lparr>span_text = Inr ''License:'', div_text = Inr ''License: mit''\<rparr>,
                       \<lparr>span_text = Inr ''ArXiv:'', div_text = Inr ''ArXiv: 2110.14168''\<rparr>],
      data_info_div = Inr [Inr [Inr ''Number of rows:'', Inr ''17,584'']],
      panel_present = Inr True,
      panel_text = Inr ''Dataset Card for GSM8K'',
      section_soup = Inr gsm8k_soup\<rparr>"

definition paper_page :: page where
  "paper_page =
     \<lparr>get_page = None,
      need_finish_form = Inr False,
      form_items = Inr [],
      finish_form_button = None,
      save_screenshot = None,
      download_count = Inl not_found,
      community_text = Inl not_found,
      like_text = Inl not_found,
      tags_info = Inr [],
      data_info_div = Inl not_found,
      panel_present = Inr False,
      panel_text = Inl not_found,
      section_soup = Inl not_found\<rparr>"

definition unreachable_page :: page where
  "unreachable_page = paper_page\<lparr>get_page := Some (WebDriverException ''timeout'')\<rparr>"

definition example_pages :: "string \<Rightarrow> page" where
  "example_pages url =
     (if url = ''https://huggingface.co/datasets/openai/gsm8k'' then gsm8k_page
      else if url = ''https://arxiv.org/pdf/2110.14168'' then paper_page
      else unreachable_page)"

definition example_extraction_env :: extraction_env where
  "example_extraction_env = \<lparr>login = None, page_of = example_pages\<rparr>"

text \<open>The same page with the data-info panel missing, with a summary panel whose text
  cannot be read, and with a paper tag that lists two papers.\<close>

definition no_data_info_page :: page where
  "no_data_info_page = gsm8k_page\<lparr>data_info_div := Inl not_found\<rparr>"

definition stale_panel_page :: page where
  "stale_panel_page = gsm8k_page\<lparr>panel_text := Inl (WebDriverException ''stale element'')\<rparr>"

definition two_papers_page :: page where
  "two_papers_page =
     gsm8k_page\<lparr>tags_info :=
       Inr [\<lparr>span_text = Inr ''ArXiv:'', div_text = Inr ''ArXiv: 2107.06499 2107.99999''\<rparr>]\<rparr>"

text \<open>An anchor with a two-level block and no header, and the anchor of the related
  model of the example page.\<close>

definition headerless_anchor :: node where
  "headerless_anchor =
     Tag ''a'' [(''href'', ''/collections/open-llm'')]
       [Tag ''div'' [] [Tag ''div'' [] [NavigableString ''Open LLM'']]]"

definition model_anchor :: node where
  "model_anchor =
     Tag ''a'' [(''href'', ''/meta-llama/Llama-3'')]
       [Tag ''header'' [] [NavigableString ''meta-llama/Llama-3''],
        Tag ''div'' [] [Tag ''div'' [] [NavigableString ''Text Generation'']]]"

text \<open>Three more webs: one where the summary panel of the dataset page cannot be read,
  one where the page of the paper does not load, and one where a second organization
  hosts a dataset of the same name.\<close>

definition stale_panel_pages :: "string \<Rightarrow> page" where
  "stale_panel_pages url =
     (if url = ''https://huggingface.co/datasets/openai/gsm8k'' then stale_panel_page
      else unreachable_page)"

definition no_paper_pages :: "string \<Rightarrow> page" where
  "no_paper_pages url =
     (if url = ''https://huggingface.co/datasets/openai/gsm8k'' then gsm8k_page
      else unreachable_page)"

definition mirror_pages :: "string \<Rightarrow> page" where
  "mirror_pages url =
     (if url = ''https://huggingface.co/datasets/openai/gsm8k'' then gsm8k_page
      else if url = ''https://huggingface.co/datasets/mirror/gsm8k'' then gsm8k_page
      else if url = ''https://arxiv.org/pdf/2110.14168'' then paper_page
      else unreachable_page)"

section \<open>Properties of link discovery\<close>

lemma dict_get_dict_set:
  "dict_get (dict_set k v d) j = (if j = k then Some v else dict_get d j)"
  unfolding dict_get_def by (induction d) auto

lemma dict_get_append_link:
  "dict_get (append_link i l d) j =
     (if j = i then extend (dict_get d i) [l] else dict_get d j)"
  by (auto simp: append_link_def Let_def dict_get_dict_set extend_def split: option.splits)

lemma logging_links [simp]:
  "organization_datasets_links (logging x st) = organization_datasets_links st"
  by (simp add: logging_def)

lemma logging_log [simp]:
  "discovery_log (logging x st) = discovery_log st @ [x]"
  by (simp add: logging_def)

lemma extend_extend: "extend (extend old a) b = extend old (a @ b)"
  by (auto simp: extend_def split: option.splits)

lemma collect_articles_lookup:
  "dict_get (organization_datasets_links (snd (collect_articles i arts st))) j =
     (if j = i then extend (dict_get (organization_datasets_links st) i) (links_before_failure arts)
      else dict_get (organization_datasets_links st) j)"
proof (induction arts arbitrary: st)
  case Nil
  then show ?case by (simp add: extend_def)
next
  case (Cons a arts)
  show ?case
  proof (cases a)
    case (Inl e)
    then show ?thesis by (simp add: extend_def)
  next
    case (Inr l)
    then show ?thesis
      by (simp add: Cons.IH dict_get_append_link extend_extend)
  qed
qed

lemma organization_body_lookup:
  "dict_get (organization_datasets_links (snd (organization_body sm web i t st))) j =
     (if j = i then extend (dict_get (organization_datasets_links st) i) (enumerated sm web t)
      else dict_get (organization_datasets_links st) j)"
  by (auto simp: organization_body_def enumerated_def Let_def collect_articles_lookup extend_def
      split: option.splits sum.splits)

lemma crawl_loop_lookup:
  "dict_get (organization_datasets_links (crawl_loop sm web ts st)) j =
     extend (dict_get (organization_datasets_links st) j)
       (concat (map (\<lambda>x. enumerated sm web (snd x)) (filter (\<lambda>x. fst x = j) ts)))"
proof (induction ts arbitrary: st)
  case Nil
  then show ?case by (simp add: extend_def)
next
  case (Cons x ts)
  obtain i t where x: "x = (i, t)" by (cases x)
  obtain r st' where ob: "organization_body sm web i t st = (r, st')" by (cases "organization_body sm web i t st")
  have l: "dict_get (organization_datasets_links st') j =
     (if j = i then extend (dict_get (organization_datasets_links st) i) (enumerated sm web t)
      else dict_get (organization_datasets_links st) j)"
    using organization_body_lookup [of sm web i t st j] ob by simp
  show ?case
    using l by (cases r) (auto simp: x ob Cons.IH extend_extend)
qed

lemma crawl_loop_append:
  "crawl_loop sm web (xs @ ys) st = crawl_loop sm web ys (crawl_loop sm web xs st)"
  by (induction xs arbitrary: st) (auto split: prod.splits option.splits)

lemma collect_articles_log_mono:
  "set (discovery_log st) \<subseteq> set (discovery_log (snd (collect_articles i arts st)))"
proof (induction arts arbitrary: st)
  case Nil
  then show ?case by simp
next
  case (Cons a arts)
  show ?case
  proof (cases a)
    case (Inl e)
    then show ?thesis by simp
  next
    case (Inr l)
    have "set (discovery_log st) \<subseteq> set (discovery_log (logging (InfoGotLink l)
        (st\<lparr>organization_datasets_links := append_link i l (organization_datasets_links st)\<rparr>)))"
      by auto
    also have "\<dots> \<subseteq> set (discovery_log (snd (collect_articles i arts (logging (InfoGotLink l)
        (st\<lparr>organization_datasets_links := append_link i l (organization_datasets_links st)\<rparr>)))))"
      by (rule Cons.IH)
    finally show ?thesis using Inr by simp
  qed
qed

lemma organization_body_log_mono:
  "set (discovery_log st) \<subseteq> set (discovery_log (snd (organization_body sm web i t st)))"
proof -
  have m: "\<And>s x. set (discovery_log st) \<subseteq> set (discovery_log s) \<Longrightarrow>
      set (discovery_log st) \<subseteq> set (discovery_log (snd (collect_articles i x s)))"
    using collect_articles_log_mono by blast
  show ?thesis
    by (auto simp: organization_body_def Let_def split: option.splits sum.splits intro!: m [THEN subsetD])
qed

lemma crawl_loop_log_mono:
  "set (discovery_log st) \<subseteq> set (discovery_log (crawl_loop sm web ts st))"
proof (induction ts arbitrary: st)
  case Nil
  then show ?case by simp
next
  case (Cons x ts)
  obtain i t where x: "x = (i, t)" by (cases x)
  obtain r st' where ob: "organization_body sm web i t st = (r, st')"
    by (cases "organization_body sm web i t st")
  have a: "set (discovery_log st) \<subseteq> set (discovery_log st')"
    using organization_body_log_mono [of st sm web i t] ob by simp
  show ?case
  proof (cases r)
    case None
    then show ?thesis using a Cons.IH [of st'] by (auto simp: x ob)
  next
    case (Some e)
    have "set (discovery_log st') \<subseteq> set (discovery_log (logging (ErrorCrawling e i) st'))"
      by auto
    then show ?thesis
      using a Cons.IH [of "logging (ErrorCrawling e i) st'"] Some by (auto simp: x ob)
  qed
qed

lemma collect_articles_error_indep:
  "fst (collect_articles i arts st) = fst (collect_articles i arts st')"
  by (induction arts arbitrary: st st') (auto split: sum.splits)

lemma organization_body_error_indep:
  "fst (organization_body sm web i t st) = fst (organization_body sm web i t st')"
  by (auto simp: organization_body_def Let_def collect_articles_error_indep
      split: option.splits sum.splits)

lemma crawl_loop_failed_logged:
  assumes "fst (organization_body sm web i t st0) = Some e"
  shows "ErrorCrawling e i \<in> set (discovery_log (crawl_loop sm web ((i, t) # ts) st))"
proof -
  obtain st' where ob: "organization_body sm web i t st = (Some e, st')"
    using assms organization_body_error_indep [of sm web i t st st0]
    by (cases "organization_body sm web i t st") auto
  have "ErrorCrawling e i \<in> set (discovery_log (logging (ErrorCrawling e i) st'))"
    by simp
  then show ?thesis
    using crawl_loop_log_mono [of "logging (ErrorCrawling e i) st'" sm web ts] ob by auto
qed

lemma filter_key_distinct:
  "distinct (map fst ts) \<Longrightarrow> (i, t) \<in> set ts \<Longrightarrow> filter (\<lambda>x. fst x = i) ts = [(i, t)]"
proof (induction ts)
  case Nil
  then show ?case by simp
next
  case (Cons x ts)
  show ?case
  proof (cases "x = (i, t)")
    case True
    have "filter (\<lambda>x. fst x = i) ts = []"
      using Cons.prems True by (auto simp: filter_empty_conv image_iff)
    then show ?thesis using True by simp
  next
    case False
    then have "(i, t) \<in> set ts" using Cons.prems by auto
    moreover have "fst x \<noteq> i" using Cons.prems calculation by (force simp: image_iff)
    ultimately show ?thesis using Cons by simp
  qed
qed

lemma enumerated_ok:
  assumes "t \<noteq> []" "get_related_links sm (Some t) = Inr url"
    "get_listing (web url) = None" "articles (web url) = Inr arts"
  shows "enumerated sm web (Some t) = links_before_failure arts"
  using assms by (simp add: enumerated_def)

lemma links_before_failure_prefix:
  "links_before_failure (map Inr ls @ Inl e # rest) = ls"
  by (induction ls) auto

lemma links_before_failure_all: "links_before_failure (map Inr ls) = ls"
  by (induction ls) auto

text \<open>
  Claim C9. Link discovery is not atomic per organization. When the listing of an
  organization loads and an article raises after the links \<open>ls\<close> have been collected,
  the run still returns, the error is logged for that organization, and the persisted
  map holds exactly \<open>ls\<close> under the organization: a partial list, not an absent entry.
  The organization file is a dictionary, so its keys are distinct.
\<close>

theorem partial_links_remain:
  assumes "organization_links_file env = Inr targets"
    and "write_links_file env = None"
    and "distinct (map fst targets)"
    and "(index, Some t) \<in> set targets"
    and "t \<noteq> []"
    and "get_related_links sort_method (Some t) = Inr url"
    and "get_listing (listing_of env url) = None"
    and "articles (listing_of env url) = Inr (map Inr ls @ Inl e # rest)"
    and "ls \<noteq> []"
  shows "\<exists>st. crawl_dataset_links sort_method env = Inr st
           \<and> dict_get (organization_datasets_links st) index = Some ls
           \<and> ErrorCrawling e index \<in> set (discovery_log st)"
proof -
  let ?web = "listing_of env"
  let ?init = "\<lparr>organization_datasets_links = [], discovery_log = []\<rparr> :: 'a discovery"
  let ?st = "crawl_loop sort_method ?web targets ?init"
  have run: "crawl_dataset_links sort_method env = Inr ?st"
    using assms(1,2) by (simp add: crawl_dataset_links_def)
  have en: "enumerated sort_method ?web (Some t) = ls"
    using assms(5,6,7,8) enumerated_ok [of t sort_method url ?web]
    by (simp add: links_before_failure_prefix)
  have "dict_get (organization_datasets_links ?st) index = extend None ls"
    using crawl_loop_lookup [of sort_method ?web targets ?init index]
      filter_key_distinct [OF assms(3,4)] en by (simp add: dict_get_def)
  then have entry: "dict_get (organization_datasets_links ?st) index = Some ls"
    using assms(9) by (simp add: extend_def)
  obtain pre post where split: "targets = pre @ (index, Some t) # post"
    using assms(4) by (meson split_list)
  have "fst (collect_articles index (map Inr ls @ Inl e # rest) s) = Some e" for s :: "'a discovery"
    by (induction ls arbitrary: s) auto
  then have "fst (organization_body sort_method ?web index (Some t) ?init) = Some e"
    using assms(5,6,7,8) by (simp add: organization_body_def Let_def split: option.splits)
  then have "ErrorCrawling e index \<in> set (discovery_log ?st)"
    using crawl_loop_failed_logged [of sort_method ?web index "Some t" ?init e post]
    by (simp add: split crawl_loop_append)
  then show ?thesis using run entry by blast
qed

text \<open>The run of the example: the first organization keeps its one link.\<close>

theorem partial_links_remain_witness:
  "\<exists>st. crawl_dataset_links ''downloads'' example_discovery_env = Inr st
      \<and> dict_get (organization_datasets_links st) ''openai''
          = Some [''https://huggingface.co/datasets/openai/gsm8k'']
      \<and> ErrorCrawling (WebDriverException ''no such element'') ''openai''
          \<in> set (discovery_log st)"
  using partial_links_remain [of example_discovery_env
      "[(''openai'', Some ''https://huggingface.co/openai''),
        (''google'', Some ''https://huggingface.co/google'')]"
      "''openai''" "''https://huggingface.co/openai''" "''downloads''"
      "''https://huggingface.co/openai?sort_datasets=downloads#datasets''"
      "[''https://huggingface.co/datasets/openai/gsm8k'']"
      "WebDriverException ''no such element''" "[]"]
  by (simp add: example_discovery_env_def example_listings_def partial_listing_def
      get_related_links_def sort_map_def dict_get_def)

text \<open>
  Claim C8. An exception raised while one organization is processed is caught and
  logged, and discovery continues. The run returns, so the map is written, once, after
  the loop; the state written is the one reached by running the loop over the remaining
  organizations from the state the failing organization left; the error is in the log;
  and every link of a later organization whose listing loads and whose articles can all
  be read is in that organization's entry of the persisted map.
\<close>

theorem discovery_continues_after_error:
  assumes "organization_links_file env = Inr (pre @ (index, target) # post)"
    and "write_links_file env = None"
    and "fst (organization_body sort_method (listing_of env) index target st0) = Some e"
  shows "\<exists>st. crawl_dataset_links sort_method env = Inr st
     \<and> st = crawl_loop sort_method (listing_of env) post
              (logging (ErrorCrawling e index)
                 (snd (organization_body sort_method (listing_of env) index target
                    (crawl_loop sort_method (listing_of env) pre
                       \<lparr>organization_datasets_links = [], discovery_log = []\<rparr>))))
     \<and> ErrorCrawling e index \<in> set (discovery_log st)
     \<and> (\<forall>j u url ls.
           (j, Some u) \<in> set post \<and> u \<noteq> []
           \<and> get_related_links sort_method (Some u) = Inr url
           \<and> get_listing (listing_of env url) = None
           \<and> articles (listing_of env url) = Inr (map Inr ls)
           \<longrightarrow> (\<forall>l\<in>set ls. \<exists>ls'. dict_get (organization_datasets_links st) j = Some ls'
                                 \<and> l \<in> set ls'))"
proof -
  let ?web = "listing_of env"
  let ?init = "\<lparr>organization_datasets_links = [], discovery_log = []\<rparr> :: 'a discovery"
  let ?ts = "pre @ (index, target) # post"
  let ?mid = "crawl_loop sort_method ?web pre ?init"
  let ?st = "crawl_loop sort_method ?web ?ts ?init"
  have run: "crawl_dataset_links sort_method env = Inr ?st"
    using assms(1,2) by (simp add: crawl_dataset_links_def)
  obtain st' where ob: "organization_body sort_method ?web index target ?mid = (Some e, st')"
    using assms(3) organization_body_error_indep [of sort_method ?web index target ?mid st0]
    by (cases "organization_body sort_method ?web index target ?mid") auto
  have shape: "?st = crawl_loop sort_method ?web post
      (logging (ErrorCrawling e index) (snd (organization_body sort_method ?web index target ?mid)))"
    by (simp add: crawl_loop_append ob)
  have logged: "ErrorCrawling e index \<in> set (discovery_log ?st)"
    using crawl_loop_failed_logged [of sort_method ?web index target st0 e post ?mid] assms(3)
    by (simp add: crawl_loop_append)
  have later: "\<exists>ls'. dict_get (organization_datasets_links ?st) j = Some ls' \<and> l \<in> set ls'"
    if h: "(j, Some u) \<in> set post" "u \<noteq> []" "get_related_links sort_method (Some u) = Inr url"
      "get_listing (?web url) = None" "articles (?web url) = Inr (map Inr ls)" "l \<in> set ls"
    for j u url ls l
  proof -
    let ?all = "concat (map (\<lambda>x. enumerated sort_method ?web (snd x))
                  (filter (\<lambda>x. fst x = j) ?ts))"
    have en: "enumerated sort_method ?web (Some u) = ls"
      using h(2,3,4,5) enumerated_ok [of u sort_method url ?web]
      by (simp add: links_before_failure_all)
    have "(j, Some u) \<in> set (filter (\<lambda>x. fst x = j) ?ts)"
      using h(1) by simp
    then have mem: "l \<in> set ?all"
      using en h(6) by (force simp del: filter_append filter.simps)
    then have "?all \<noteq> []" by auto
    then have "dict_get (organization_datasets_links ?st) j = Some ?all"
      using crawl_loop_lookup [of sort_method ?web ?ts ?init j]
      by (simp add: extend_def dict_get_def)
    then show ?thesis using mem by blast
  qed
  show ?thesis
    using run shape logged later by (intro exI [of _ ?st]) blast
qed

text \<open>The run of the example: the first organization raises, the links of the second
  one are persisted.\<close>

theorem discovery_continues_after_error_witness:
  "\<exists>st. crawl_dataset_links ''downloads'' example_discovery_env = Inr st
      \<and> ErrorCrawling (WebDriverException ''no such element'') ''openai''
          \<in> set (discovery_log st)
      \<and> (\<exists>ls'. dict_get (organization_datasets_links st) ''google'' = Some ls'
             \<and> ''https://huggingface.co/datasets/google/xtreme'' \<in> set ls')"
proof -
  have f: "fst (organization_body ''downloads'' (listing_of example_discovery_env) ''openai''
             (Some ''https://huggingface.co/openai'')
             \<lparr>organization_datasets_links = [], discovery_log = []\<rparr>)
           = Some (WebDriverException ''no such element'')"
    by (simp add: organization_body_def example_discovery_env_def example_listings_def
        partial_listing_def get_related_links_def sort_map_def dict_get_def Let_def)
  have o: "organization_links_file example_discovery_env
           = Inr ([] @ (''openai'', Some ''https://huggingface.co/openai'')
                  # [(''google'', Some ''https://huggingface.co/google'')])"
    by (simp add: example_discovery_env_def)
  have w: "write_links_file example_discovery_env = None"
    by (simp add: example_discovery_env_def)
  obtain st where st: "crawl_dataset_links ''downloads'' example_discovery_env = Inr st"
    "ErrorCrawling (WebDriverException ''no such element'') ''openai'' \<in> set (discovery_log st)"
    "\<forall>j u url ls.
           (j, Some u) \<in> set [(''google'', Some ''https://huggingface.co/google'')] \<and> u \<noteq> []
           \<and> get_related_links ''downloads'' (Some u) = Inr url
           \<and> get_listing (listing_of example_discovery_env url) = None
           \<and> articles (listing_of example_discovery_env url) = Inr (map Inr ls)
           \<longrightarrow> (\<forall>l\<in>set ls. \<exists>ls'. dict_get (organization_datasets_links st) j = Some ls'
                                 \<and> l \<in> set ls')"
    using discovery_continues_after_error [OF o w f] by blast
  have "\<forall>l\<in>set [''https://huggingface.co/datasets/google/fleurs'',
                  ''https://huggingface.co/datasets/google/xtreme''].
          \<exists>ls'. dict_get (organization_datasets_links st) ''google'' = Some ls' \<and> l \<in> set ls'"
    using st(3) [rule_format, of "''google''" "''https://huggingface.co/google''"
        "''https://huggingface.co/google?sort_datasets=downloads#datasets''"
        "[''https://huggingface.co/datasets/google/fleurs'',
          ''https://huggingface.co/datasets/google/xtreme'']"]
    by (simp add: example_discovery_env_def example_listings_def full_listing_def
        get_related_links_def sort_map_def dict_get_def)
  then show ?thesis using st(1,2) by simp
qed

lemma collect_articles_links_invalid:
  "dict_get sort_map sm = None \<Longrightarrow>
   organization_datasets_links (snd (organization_body sm web i t st)) = organization_datasets_links st"
  by (auto simp: organization_body_def get_related_links_def Let_def split: option.splits)

lemma organization_body_invalid_sort:
  "dict_get sort_map sm = None \<Longrightarrow> t \<noteq> [] \<Longrightarrow>
   fst (organization_body sm web i (Some t) st) = Some (ValueError ''Invalid sort_method.'')"
  by (simp add: organization_body_def get_related_links_def Let_def)

lemma crawl_loop_links_invalid:
  "dict_get sort_map sm = None \<Longrightarrow>
   organization_datasets_links (crawl_loop sm web ts st) = organization_datasets_links st"
proof (induction ts arbitrary: st)
  case Nil
  then show ?case by simp
next
  case (Cons x ts)
  obtain i t where x: "x = (i, t)" by (cases x)
  obtain r st' where ob: "organization_body sm web i t st = (r, st')"
    by (cases "organization_body sm web i t st")
  have "organization_datasets_links st' = organization_datasets_links st"
    using collect_articles_links_invalid [OF Cons.prems, of web i t st] ob by simp
  then show ?case
    using Cons by (cases r) (simp_all add: x ob)
qed

text \<open>
  Claim C4, as the code has it. \<open>_get_related_links\<close> is called inside the \<open>try\<close>
  block of the organization, so the \<open>ValueError\<close> of an unknown \<open>sort_method\<close> is caught
  by the handler of line 117 like any other error of that organization. The run does not
  abort: it returns, the error is logged for every organization with a non-empty target,
  no link is enumerated, and the map that is persisted is empty.
\<close>

theorem unknown_sort_method_is_logged_per_organization:
  assumes "dict_get sort_map sort_method = None"
    and "organization_links_file env = Inr targets"
    and "write_links_file env = None"
  shows "\<exists>st. crawl_dataset_links sort_method env = Inr st
     \<and> organization_datasets_links st = []
     \<and> (\<forall>(index, target)\<in>set targets.
           target \<noteq> None \<and> target \<noteq> Some []
           \<longrightarrow> ErrorCrawling (ValueError ''Invalid sort_method.'') index \<in> set (discovery_log st))"
proof -
  let ?web = "listing_of env"
  let ?init = "\<lparr>organization_datasets_links = [], discovery_log = []\<rparr> :: 'a discovery"
  let ?st = "crawl_loop sort_method ?web targets ?init"
  have run: "crawl_dataset_links sort_method env = Inr ?st"
    using assms(2,3) by (simp add: crawl_dataset_links_def)
  have empty: "organization_datasets_links ?st = []"
    using crawl_loop_links_invalid [OF assms(1), of ?web targets ?init] by simp
  have logged: "ErrorCrawling (ValueError ''Invalid sort_method.'') index \<in> set (discovery_log ?st)"
    if h: "(index, target) \<in> set targets" "target \<noteq> None" "target \<noteq> Some []" for index target
  proof -
    obtain t where t: "target = Some t" "t \<noteq> []" using h(2,3) by auto
    obtain pre post where split: "targets = pre @ (index, target) # post"
      using h(1) by (meson split_list)
    show ?thesis
      using crawl_loop_failed_logged [of sort_method ?web index target ?init
          "ValueError ''Invalid sort_method.''" post "crawl_loop sort_method ?web pre ?init"]
        organization_body_invalid_sort [OF assms(1) t(2), of ?web index ?init]
      by (simp add: split crawl_loop_append t(1))
  qed
  show ?thesis
    using run empty logged by (intro exI [of _ ?st]) auto
qed

text \<open>The run of the example with the sort order \<open>popularity\<close>.\<close>

theorem unknown_sort_method_is_logged_per_organization_witness:
  "\<exists>st. crawl_dataset_links ''popularity'' example_discovery_env = Inr st
     \<and> organization_datasets_links st = []
     \<and> ErrorCrawling (ValueError ''Invalid sort_method.'') ''google'' \<in> set (discovery_log st)"
proof -
  have a: "dict_get sort_map ''popularity'' = None"
    by (simp add: sort_map_def dict_get_def)
  have b: "organization_links_file example_discovery_env
           = Inr [(''openai'', Some ''https://huggingface.co/openai''),
                  (''google'', Some ''https://huggingface.co/google'')]"
    by (simp add: example_discovery_env_def)
  have c: "write_links_file example_discovery_env = None"
    by (simp add: example_discovery_env_def)
  show ?thesis
    using unknown_sort_method_is_logged_per_organization [OF a b c] by auto
qed

text \<open>
  Claim C4 as stated fails: with the unknown sort order \<open>popularity\<close> the call of
  \<open>_get_related_links\<close> raises, and yet \<open>crawl_dataset_links\<close> returns normally,
  having logged one error per organization and written the empty map.
\<close>

theorem unknown_sort_method_does_not_abort:
  "get_related_links ''popularity'' (Some ''https://huggingface.co/openai'')
     = Inl (ValueError ''Invalid sort_method.'')
   \<and> crawl_dataset_links ''popularity'' example_discovery_env
     = Inr \<lparr>organization_datasets_links = [],
            discovery_log =
              [InfoScrawling ''openai'' ''https://huggingface.co/openai'',
               ErrorCrawling (ValueError ''Invalid sort_method.'') ''openai'',
               InfoScrawling ''google'' ''https://huggingface.co/google'',
               ErrorCrawling (ValueError ''Invalid sort_method.'') ''google'']\<rparr>"
  by (simp add: crawl_dataset_links_def example_discovery_env_def organization_body_def
      get_related_links_def sort_map_def dict_get_def logging_def Let_def)

section \<open>Properties of \<open>_extract_related_data\<close>\<close>

lemma py_split_not_Nil [simp]: "py_split c s \<noteq> []"
  by (induction s) (auto split: list.splits)

lemma hd_py_split: "hd (py_split c s) = takeWhile (\<lambda>x. x \<noteq> c) s"
  by (induction s) (auto split: list.splits)

lemma is_space_space: "is_space CHR '' ''"
  by (simp add: is_space_def)

lemma first_token_normalized:
  assumes "whitespace_normalized s"
  shows "takeWhile (\<lambda>x. x \<noteq> CHR '' '') s = first_token s"
proof -
  have d: "dropWhile is_space s = s"
    using assms by (cases s) (auto simp: whitespace_normalized_def)
  have "takeWhile (\<lambda>x. x \<noteq> CHR '' '') s = takeWhile (\<lambda>c. \<not> is_space c) s"
    using assms is_space_space
    by (intro takeWhile_cong) (auto simp: whitespace_normalized_def)
  then show ?thesis by (simp add: first_token_def d)
qed

lemma tags_loop_append:
  "tags_loop ct (xs @ ys) acc =
     (case tags_loop ct xs acc of Inl e \<Rightarrow> Inl e | Inr acc' \<Rightarrow> tags_loop ct ys acc')"
proof (induction xs arbitrary: acc)
  case Nil
  then show ?case by simp
next
  case (Cons d xs)
  obtain m a where acc: "acc = (m, a)" by (cases acc)
  show ?case
    by (simp add: acc Cons.IH Let_def split: sum.splits)
qed

lemma tags_loop_keeps_arxiv_id:
  assumes "\<forall>d\<in>set ds. \<forall>s. span_text d = Inr s \<longrightarrow> py_lower (tag_key s) \<noteq> ''arxiv''"
    and "tags_loop ct ds (m, a) = Inr (m', a')"
  shows "a' = a"
  using assms
proof (induction ds arbitrary: m a)
  case Nil
  then show ?case by simp
next
  case (Cons d ds)
  then show ?case
    by (auto simp: Let_def split: sum.splits)
qed

lemma extract_related_data_halves:
  "extract_related_data ct p r =
     (case hard_readings ct p of
        Inl e \<Rightarrow> (Inl e, r)
      | Inr readings \<Rightarrow>
          after_data_info ct p readings
            (case data_info_of p of
               Inl e \<Rightarrow> r
             | Inr data_info \<Rightarrow> r\<lparr>dataset_info := Some data_info\<rparr>))"
  by (simp add: extract_related_data_def hard_readings_def after_data_info_def Let_def
      split: sum.split prod.split)

lemma hard_readings_Inr:
  assumes "hard_readings ct p = Inr (dc, c, l, m, a)"
  shows "download_count p = Inr dc \<and> community_text p = Inr c \<and> like_text p = Inr l
     \<and> (\<exists>divs. tags_info p = Inr divs \<and> tags_loop ct divs ([], []) = Inr (m, a))"
  using assms by (auto simp: hard_readings_def split: sum.splits)

lemma after_data_info_Inr:
  assumes "after_data_info ct p (dc, c, l, m, a) r1 = (Inr a', r')"
  shows "a' = a \<and> dataset_tags_info r' = Some m \<and> download_count_last_month r' = Some dc
     \<and> community r' = Some (counter ct ''Community'' c)
     \<and> like r' = Some (counter ct ''Like'' l)
     \<and> related_models_collections r' \<noteq> None
     \<and> dataset_info r' = dataset_info r1
     \<and> link r' = link r1
     \<and> paper_screenshot_save_path r' = paper_screenshot_save_path r1
     \<and> dataset_screenshot_save_path r' = dataset_screenshot_save_path r1"
  using assms
  by (auto simp: after_data_info_def crawl_related_models_or_collections_def Let_def
      split: sum.splits if_splits)

lemma after_data_info_dataset_info:
  "after_data_info ct p rd (r\<lparr>dataset_info := v\<rparr>)
     = (fst (after_data_info ct p rd r), (snd (after_data_info ct p rd r))\<lparr>dataset_info := v\<rparr>)"
  by (cases rd)
    (simp add: after_data_info_def crawl_related_models_or_collections_def Let_def
      split: sum.split)

lemma after_data_info_page:
  "after_data_info ct (p\<lparr>data_info_div := x\<rparr>) rd r = after_data_info ct p rd r"
  by (simp add: after_data_info_def split: prod.split sum.split)

lemma hard_readings_page:
  "hard_readings ct (p\<lparr>data_info_div := x\<rparr>) = hard_readings ct p"
  by (simp add: hard_readings_def split: sum.split)

lemma extract_related_data_success:
  assumes "extract_related_data ct p r = (Inr a, r')"
  shows "\<exists>dc c l m. hard_readings ct p = Inr (dc, c, l, m, a)
     \<and> after_data_info ct p (dc, c, l, m, a)
          (case data_info_of p of Inl e \<Rightarrow> r | Inr di \<Rightarrow> r\<lparr>dataset_info := Some di\<rparr>)
        = (Inr a, r')"
proof -
  obtain dc c l m a0 where h: "hard_readings ct p = Inr (dc, c, l, m, a0)"
    using assms by (cases "hard_readings ct p") (auto simp: extract_related_data_halves)
  let ?r1 = "case data_info_of p of Inl e \<Rightarrow> r | Inr di \<Rightarrow> r\<lparr>dataset_info := Some di\<rparr>"
  have a: "after_data_info ct p (dc, c, l, m, a0) ?r1 = (Inr a, r')"
    using assms h by (simp add: extract_related_data_halves)
  then have "a = a0" using after_data_info_Inr [OF a] by simp
  then show ?thesis using h a by blast
qed

lemma extract_related_data_tags:
  assumes "extract_related_data ct p r = (Inr arxiv_id, r')"
  shows "\<exists>divs m. tags_info p = Inr divs \<and> tags_loop ct divs ([], []) = Inr (m, arxiv_id)"
  using extract_related_data_success [OF assms] hard_readings_Inr by blast

text \<open>The outcome of the extraction on the example pages, with \<open>str.strip\<close> standing
  in for \<open>clean_text\<close>.\<close>

lemma gsm8k_run:
  "fst (extract_related_data py_strip gsm8k_page empty_record) = Inr ''2110.14168''"
  by code_simp

lemma two_papers_run:
  "fst (extract_related_data py_strip two_papers_page empty_record) = Inr ''2107.06499''"
  by code_simp

lemma no_data_info_run:
  "fst (extract_related_data py_strip no_data_info_page empty_record) = Inr ''2110.14168''"
  by code_simp

text \<open>
  Claim C6. Take a page whose tag blocks contain a block \<open>d\<close> whose label matches
  \<open>arxiv\<close> case-insensitively, no later block doing so, and let \<open>v\<close> be the value
  stored for that block. When the extraction returns, the identifier it returns is the
  part before the first space of the cleaned text after the last colon of \<open>v\<close>. That
  is the first whitespace-separated token of the text whenever \<open>clean_text\<close> has
  returned it whitespace-normalized; and for the value \<open>2107.06499 2107.99999\<close>, which
  \<open>clean_text\<close> leaves as it is, the identifier is \<open>2107.06499\<close>.
\<close>

theorem arxiv_id_is_first_token:
  assumes "tags_info p = Inr (pre @ d # post)"
    and "span_text d = Inr span"
    and "div_text d = Inr text"
    and "py_lower (tag_key span) = ''arxiv''"
    and "\<forall>d'\<in>set post. \<forall>s. span_text d' = Inr s \<longrightarrow> py_lower (tag_key s) \<noteq> ''arxiv''"
    and "extract_related_data clean_text p r = (Inr arxiv_id, r')"
  shows "let v = tag_value clean_text (tag_key span) text;
             cleaned = clean_text (last (py_split CHR '':'' v))
         in arxiv_id = hd (py_split CHR '' '' cleaned)
            \<and> (whitespace_normalized cleaned \<longrightarrow> arxiv_id = first_token cleaned)
            \<and> (v = ''2107.06499 2107.99999'' \<and> clean_text v = v \<longrightarrow> arxiv_id = ''2107.06499'')"
proof -
  let ?v = "tag_value clean_text (tag_key span) text"
  let ?cleaned = "clean_text (last (py_split CHR '':'' ?v))"
  obtain m where loop: "tags_loop clean_text (pre @ d # post) ([], []) = Inr (m, arxiv_id)"
    using extract_related_data_tags [OF assms(6)] assms(1) by auto
  obtain m1 a1 where pre: "tags_loop clean_text pre ([], []) = Inr (m1, a1)"
    using loop by (auto simp: tags_loop_append split: sum.splits)
  have "tags_loop clean_text post (dict_set (tag_key span) ?v m1, arxiv_id_of clean_text ?v)
          = Inr (m, arxiv_id)"
    using loop pre assms(2,3,4) by (simp add: tags_loop_append Let_def)
  then have "arxiv_id = arxiv_id_of clean_text ?v"
    using tags_loop_keeps_arxiv_id [OF assms(5)] by blast
  then have code: "arxiv_id = hd (py_split CHR '' '' ?cleaned)"
    by (simp add: arxiv_id_of_def)
  have token: "arxiv_id = first_token ?cleaned" if "whitespace_normalized ?cleaned"
    using code first_token_normalized [OF that] by (simp add: hd_py_split)
  have two: "arxiv_id = ''2107.06499''"
    if v: "?v = ''2107.06499 2107.99999''" and c: "clean_text ?v = ?v"
  proof -
    have l: "last (py_split CHR '':'' ''2107.06499 2107.99999'') = ''2107.06499 2107.99999''"
      by simp
    have "?cleaned = ''2107.06499 2107.99999''"
      using c l unfolding v by simp
    then have "arxiv_id = hd (py_split CHR '' '' ''2107.06499 2107.99999'')"
      using code by simp
    then show ?thesis by simp
  qed
  show ?thesis
    unfolding Let_def using code token two by blast
qed

text \<open>
  Claim C5. When the extraction of a page returns, the entry holds under \<open>community\<close>
  and \<open>like\<close> the cleaned text of the counter with the word \<open>Community\<close>, respectively
  \<open>Like\<close>, removed, and exactly the string \<open>0\<close> when that cleaned text is empty.
\<close>

theorem counters_are_cleaned_or_zero:
  assumes "extract_related_data clean_text p r = (Inr arxiv_id, r')"
  shows "\<exists>c l. community_text p = Inr c \<and> like_text p = Inr l
     \<and> community r' = Some (if clean_text (py_remove ''Community'' c) = [] then ''0''
                             else clean_text (py_remove ''Community'' c))
     \<and> like r' = Some (if clean_text (py_remove ''Like'' l) = [] then ''0''
                        else clean_text (py_remove ''Like'' l))"
proof -
  obtain dc c l m where h: "hard_readings clean_text p = Inr (dc, c, l, m, arxiv_id)"
    and a: "after_data_info clean_text p (dc, c, l, m, arxiv_id)
          (case data_info_of p of Inl e \<Rightarrow> r | Inr di \<Rightarrow> r\<lparr>dataset_info := Some di\<rparr>)
        = (Inr arxiv_id, r')"
    using extract_related_data_success [OF assms] by blast
  have texts: "community_text p = Inr c" "like_text p = Inr l"
    using hard_readings_Inr [OF h] by simp_all
  have stored: "community r' = Some (counter clean_text ''Community'' c)"
    "like r' = Some (counter clean_text ''Like'' l)"
    using after_data_info_Inr [OF a] by simp_all
  have "counter clean_text ''Community'' c
          = (if clean_text (py_remove ''Community'' c) = [] then ''0''
             else clean_text (py_remove ''Community'' c))"
    by (simp add: counter_def)
  moreover have "counter clean_text ''Like'' l
          = (if clean_text (py_remove ''Like'' l) = [] then ''0''
             else clean_text (py_remove ''Like'' l))"
    by (simp add: counter_def)
  ultimately show ?thesis using texts stored by (intro exI [of _ c] exI [of _ l]) simp
qed

text \<open>
  Claim C3, as the code has it. When the data-info panel raises, the failure is isolated:
  the extraction returns or raises exactly as it does with any other data-info panel, a
  working one included, and the entry is the same as with that panel except for the key
  \<open>dataset_info\<close>. That key is left as it was, so in a fresh entry it is absent; the
  empty mapping is not stored.
\<close>

theorem data_info_failure_leaves_key_absent:
  assumes "data_info_of p = Inl e"
  shows "fst (extract_related_data clean_text p r)
           = fst (extract_related_data clean_text (p\<lparr>data_info_div := x\<rparr>) r)
     \<and> snd (extract_related_data clean_text p r)
           = (snd (extract_related_data clean_text (p\<lparr>data_info_div := x\<rparr>) r))
               \<lparr>dataset_info := dataset_info r\<rparr>
     \<and> dataset_info (snd (extract_related_data clean_text p r)) = dataset_info r
     \<and> dataset_info (snd (extract_related_data clean_text p empty_record)) = None"
proof -
  let ?p = "p\<lparr>data_info_div := x\<rparr>"
  have same: "fst (extract_related_data clean_text p r) = fst (extract_related_data clean_text ?p r)
     \<and> snd (extract_related_data clean_text p r)
         = (snd (extract_related_data clean_text ?p r))\<lparr>dataset_info := dataset_info r\<rparr>" for r
  proof (cases "hard_readings clean_text p")
    case (Inl e')
    then show ?thesis
      by (simp add: extract_related_data_halves hard_readings_page)
  next
    case (Inr rd)
    have "after_data_info clean_text p rd r
            = (fst (after_data_info clean_text p rd r),
               (snd (after_data_info clean_text p rd r))\<lparr>dataset_info := dataset_info r\<rparr>)"
      using after_data_info_dataset_info [where ct = clean_text and p = p and rd = rd and r = r
          and v = "dataset_info r"] by simp
    then have keep: "(snd (after_data_info clean_text p rd r))\<lparr>dataset_info := dataset_info r\<rparr>
            = snd (after_data_info clean_text p rd r)"
      by (metis snd_conv)
    show ?thesis
    proof (cases "data_info_of ?p")
      case (Inl e')
      then show ?thesis
        using Inr assms keep
        by (simp add: extract_related_data_halves hard_readings_page after_data_info_page)
    next
      case di: (Inr d)
      show ?thesis
        using Inr assms di keep
        by (simp add: extract_related_data_halves hard_readings_page after_data_info_page
            after_data_info_dataset_info)
    qed
  qed
  have kept: "dataset_info (snd (extract_related_data clean_text p r)) = dataset_info r" for r
    using same [of r] by simp
  show ?thesis
    using same [of r] kept [of r] kept [of empty_record] by (simp add: empty_record_def)
qed

text \<open>The page with two papers in its paper tag.\<close>

theorem arxiv_id_is_first_token_witness:
  "fst (extract_related_data py_strip two_papers_page empty_record) = Inr ''2107.06499''
   \<and> tag_value py_strip (tag_key ''ArXiv:'') ''ArXiv: 2107.06499 2107.99999''
       = ''2107.06499 2107.99999''
   \<and> whitespace_normalized ''2107.06499 2107.99999''
   \<and> first_token ''2107.06499 2107.99999'' = ''2107.06499''"
proof -
  let ?d = "\<lparr>span_text = Inr ''ArXiv:'', div_text = Inr ''ArXiv: 2107.06499 2107.99999''\<rparr>"
  let ?v = "tag_value py_strip (tag_key ''ArXiv:'') ''ArXiv: 2107.06499 2107.99999''"
  have t: "tags_info two_papers_page = Inr ([] @ ?d # [])"
    by (simp add: two_papers_page_def gsm8k_page_def)
  have s: "span_text ?d = Inr ''ArXiv:''" and x: "div_text ?d = Inr ''ArXiv: 2107.06499 2107.99999''"
    by simp_all
  have k: "py_lower (tag_key ''ArXiv:'') = ''arxiv''"
    by code_simp
  have n: "\<forall>d'\<in>set []. \<forall>s. span_text (d' :: tag_div) = Inr s \<longrightarrow> py_lower (tag_key s) \<noteq> ''arxiv''"
    by simp
  have e: "extract_related_data py_strip two_papers_page empty_record
             = (Inr ''2107.06499'', snd (extract_related_data py_strip two_papers_page empty_record))"
    using two_papers_run by (metis prod.collapse)
  have v: "?v = ''2107.06499 2107.99999''"
    by code_simp
  have c: "py_strip (last (py_split CHR '':'' ''2107.06499 2107.99999'')) = ''2107.06499 2107.99999''"
    by code_simp
  have w: "whitespace_normalized ''2107.06499 2107.99999''"
    by code_simp
  have "''2107.06499'' = first_token ''2107.06499 2107.99999''"
    using arxiv_id_is_first_token [OF t s x k n e] w unfolding Let_def v c by blast
  then show ?thesis using two_papers_run v w by simp
qed

text \<open>The example page shows no community count and 57 likes.\<close>

theorem counters_are_cleaned_or_zero_witness:
  "community (snd (extract_related_data py_strip gsm8k_page empty_record)) = Some ''0''
   \<and> like (snd (extract_related_data py_strip gsm8k_page empty_record)) = Some ''57''"
proof -
  have e: "extract_related_data py_strip gsm8k_page empty_record
             = (Inr ''2110.14168'', snd (extract_related_data py_strip gsm8k_page empty_record))"
    using gsm8k_run by (metis prod.collapse)
  have c: "py_strip (py_remove ''Community'' ''Community'') = []"
    by code_simp
  have l: "py_strip (py_remove ''Like'' ''Like 57'') = ''57''"
    by code_simp
  show ?thesis
    using counters_are_cleaned_or_zero [OF e] c l by (simp add: gsm8k_page_def)
qed

text \<open>The example page without its data-info panel, compared with the example page.\<close>

theorem data_info_failure_leaves_key_absent_witness:
  "fst (extract_related_data py_strip no_data_info_page empty_record)
     = fst (extract_related_data py_strip gsm8k_page empty_record)
   \<and> snd (extract_related_data py_strip no_data_info_page empty_record)
     = (snd (extract_related_data py_strip gsm8k_page empty_record))\<lparr>dataset_info := None\<rparr>
   \<and> dataset_info (snd (extract_related_data py_strip no_data_info_page empty_record)) = None"
proof -
  have f: "data_info_of no_data_info_page = Inl not_found"
    by (simp add: data_info_of_def no_data_info_page_def)
  have p: "no_data_info_page\<lparr>data_info_div := data_info_div gsm8k_page\<rparr> = gsm8k_page"
    by (simp add: no_data_info_page_def)
  show ?thesis
    using data_info_failure_leaves_key_absent [OF f, of py_strip empty_record
        "data_info_div gsm8k_page"]
    unfolding p by (simp add: empty_record_def)
qed

text \<open>
  Claim C3 as stated fails: on the page whose data-info panel cannot be located the
  extraction returns, and the entry has no key \<open>dataset_info\<close> rather than the empty
  mapping. Nothing here depends on what \<open>clean_text\<close> returns.
\<close>

theorem data_info_failure_is_not_empty_mapping:
  "data_info_of no_data_info_page = Inl not_found
   \<and> fst (extract_related_data py_strip no_data_info_page empty_record) = Inr ''2110.14168''
   \<and> dataset_info (snd (extract_related_data py_strip no_data_info_page empty_record)) = None
   \<and> dataset_info (snd (extract_related_data py_strip no_data_info_page empty_record)) \<noteq> Some []"
  by code_simp

section \<open>Properties of the related-artifact items\<close>

lemma find_all_a_href_has_href:
  "a \<in> set (find_all_a_href n) \<Longrightarrow> \<exists>h. dict_get (attrs a) ''href'' = Some h"
  by (auto simp: find_all_a_href_def)

lemma set_item_Some:
  "dict_get result sub_title = Some bucket \<Longrightarrow>
   set_item sub_title header v result
     = Inr (dict_set sub_title (dict_set header v bucket) result)"
  by (simp add: set_item_def)

text \<open>
  Claim C7, as the code has it. For a link element of a bucket, the loop body stores one
  item under the display key of the link. The item is \<open>{href, text}\<close>, with the text of
  the two-level block cleaned, when the link has such a block and its display key is not
  \<open>expand\<close>; otherwise it is \<open>{other: t}\<close>, \<open>t\<close> being the cleaned full text of the link
  with the quote characters removed. A link with no header element has the display key
  \<open>expand\<close>, and so always yields \<open>{other: t}\<close>.
\<close>

theorem item_shape_depends_on_header:
  assumes "a_tag \<in> set (find_all_a_href sibling)"
    and "dict_get result sub_title = Some bucket"
  shows "\<exists>result' bucket' item.
       extract_item clean_text a_tag result sub_title = (None, result')
     \<and> dict_get result' sub_title = Some bucket'
     \<and> dict_get bucket' (header_of clean_text a_tag) = Some item
     \<and> (if header_of clean_text a_tag \<noteq> ''expand'' \<and> nested_div a_tag \<noteq> None
         then \<exists>h inner. dict_get (attrs a_tag) ''href'' = Some h
                \<and> nested_div a_tag = Some inner
                \<and> item = [(''href'', h), (''text'', clean_text (get_text inner))]
         else item = [(''other'', remove_quotes_rev (clean_text (get_text a_tag)))])
     \<and> (find_tag ''header'' a_tag = None \<longrightarrow> header_of clean_text a_tag = ''expand'')"
proof -
  let ?header = "header_of clean_text a_tag"
  let ?b1 = "dict_set ?header [] bucket"
  let ?r1 = "dict_set sub_title ?b1 result"
  obtain h where h: "dict_get (attrs a_tag) ''href'' = Some h"
    using find_all_a_href_has_href [OF assms(1)] by blast
  have s1: "set_item sub_title ?header [] result = Inr ?r1"
    using assms(2) by (rule set_item_Some)
  have g1: "dict_get ?r1 sub_title = Some ?b1"
    by (simp add: dict_get_dict_set)
  have s2: "set_item sub_title ?header v ?r1
              = Inr (dict_set sub_title (dict_set ?header v ?b1) ?r1)" for v
    using g1 by (rule set_item_Some)
  have key: "find_tag ''header'' a_tag = None \<longrightarrow> ?header = ''expand''"
    by (simp add: header_of_def)
  show ?thesis
  proof (cases "?header \<noteq> ''expand'' \<and> nested_div a_tag \<noteq> None")
    case True
    then obtain inner where inner: "nested_div a_tag = Some inner" by auto
    let ?item = "[(''href'', h), (''text'', clean_text (get_text inner))]"
    let ?r2 = "dict_set sub_title (dict_set ?header ?item ?b1) ?r1"
    have "extract_item clean_text a_tag result sub_title = (None, ?r2)"
      using True inner h s1 s2 [of ?item] by (simp add: extract_item_def Let_def)
    moreover have "dict_get ?r2 sub_title = Some (dict_set ?header ?item ?b1)"
      by (simp add: dict_get_dict_set)
    moreover have "dict_get (dict_set ?header ?item ?b1) ?header = Some ?item"
      by (simp add: dict_get_dict_set)
    ultimately show ?thesis
      using True inner h key by (intro exI [of _ ?r2] exI [of _ "dict_set ?header ?item ?b1"]
          exI [of _ ?item]) simp
  next
    case False
    let ?item = "[(''other'', remove_quotes_rev (clean_text (get_text a_tag)))]"
    let ?r2 = "dict_set sub_title (dict_set ?header ?item ?b1) ?r1"
    have c: "(if ?header \<noteq> ''expand'' then nested_div a_tag else None) = None"
      using False by auto
    have "extract_item clean_text a_tag result sub_title = (None, ?r2)"
      using s1 s2 [of ?item] unfolding extract_item_def Let_def c by simp
    moreover have "dict_get ?r2 sub_title = Some (dict_set ?header ?item ?b1)"
      by (simp add: dict_get_dict_set)
    moreover have "dict_get (dict_set ?header ?item ?b1) ?header = Some ?item"
      by (simp add: dict_get_dict_set)
    ultimately show ?thesis
      using False key by (intro exI [of _ ?r2] exI [of _ "dict_set ?header ?item ?b1"]
          exI [of _ ?item]) auto
  qed
qed

text \<open>The anchor of the related model of the example page.\<close>

theorem item_shape_depends_on_header_witness:
  "\<exists>result' bucket'.
       extract_item py_strip model_anchor [(''Models'', [])] ''Models'' = (None, result')
     \<and> dict_get result' ''Models'' = Some bucket'
     \<and> dict_get bucket' ''meta-llama/Llama-3''
         = Some [(''href'', ''/meta-llama/Llama-3''), (''text'', ''Text Generation'')]"
proof -
  have m: "model_anchor \<in> set (find_all_a_href (Tag ''div'' [] [model_anchor]))"
    by code_simp
  have r: "dict_get [(''Models'', [])] ''Models'' = Some ([] :: (string, item) dict)"
    by (simp add: dict_get_def)
  have hd: "header_of py_strip model_anchor = ''meta-llama/Llama-3''"
    by code_simp
  have n: "nested_div model_anchor = Some (Tag ''div'' [] [NavigableString ''Text Generation''])"
    by code_simp
  have a: "dict_get (attrs model_anchor) ''href'' = Some ''/meta-llama/Llama-3''"
    by code_simp
  have t: "py_strip ''Text Generation'' = ''Text Generation''"
    by code_simp
  show ?thesis
    using item_shape_depends_on_header [OF m r, of py_strip] unfolding hd n a
    by (auto simp: t)
qed

text \<open>
  Claim C7 as stated fails: a link with a two-level block and no header element yields
  an item with the single key \<open>other\<close>, not \<open>{href, text}\<close>. The keys do not depend on
  what \<open>clean_text\<close> returns.
\<close>

theorem headerless_link_yields_other:
  "find_tag ''header'' headerless_anchor = None
   \<and> nested_div headerless_anchor = Some (Tag ''div'' [] [NavigableString ''Open LLM''])
   \<and> extract_item py_strip headerless_anchor [(''Collections'', [])] ''Collections''
       = (None, [(''Collections'', [(''expand'', [(''other'', ''Open LLM'')])])])"
  by code_simp

section \<open>Properties of \<open>_get_all_link_data\<close>\<close>

lemma dict_get_set_record:
  "dict_get (set_record org name r d) o' = None \<longleftrightarrow> dict_get d o' = None"
  by (auto simp: set_record_def dict_get_dict_set split: option.splits)

lemma get_record_set_record:
  "dict_get d org \<noteq> None \<Longrightarrow>
   get_record (set_record org name r d) o' n'
     = (if o' = org \<and> n' = name then Some r else get_record d o' n')"
  by (auto simp: set_record_def get_record_def dict_get_dict_set split: option.splits)

lemma dict_get_Nil [simp]: "dict_get [] k = None"
  by (simp add: dict_get_def)

lemma dict_get_ensure_entry:
  "dict_get (ensure_entry org name d) org \<noteq> None"
proof -
  let ?d1 = "if dict_get d org = None then dict_set org [] d else d"
  have "dict_get ?d1 org \<noteq> None"
    by (simp add: dict_get_dict_set)
  then obtain b where b: "dict_get ?d1 org = Some b" by blast
  have "dict_get (set_record org name empty_record ?d1) org \<noteq> None"
    using b dict_get_set_record [of org name empty_record ?d1 org] by simp
  then show ?thesis
    using b unfolding ensure_entry_def Let_def by (simp split: if_split)
qed

lemma get_record_ensure_entry:
  "get_record (ensure_entry org name d) o' n'
     = (if o' = org \<and> n' = name \<and> get_record d org name = None then Some empty_record
        else get_record d o' n')"
proof -
  let ?d1 = "if dict_get d org = None then dict_set org [] d else d"
  have p: "dict_get ?d1 org \<noteq> None"
    by (simp add: dict_get_dict_set)
  have g: "get_record ?d1 o' n' = get_record d o' n'"
    by (auto simp: get_record_def dict_get_dict_set split: option.splits)
  have g': "get_record ?d1 org name = get_record d org name"
    by (auto simp: get_record_def dict_get_dict_set split: option.splits)
  show ?thesis
    unfolding ensure_entry_def Let_def
    using get_record_set_record [OF p, of name empty_record o' n'] g g'
    by auto
qed

lemma after_data_info_error:
  "fst (after_data_info ct p rd r) = fst (after_data_info ct p rd r')"
  by (cases rd) (simp add: after_data_info_def split: sum.split)

lemma after_data_info_keeps:
  "link (snd (after_data_info ct p rd r)) = link r
   \<and> paper_screenshot_save_path (snd (after_data_info ct p rd r)) = paper_screenshot_save_path r
   \<and> dataset_screenshot_save_path (snd (after_data_info ct p rd r))
       = dataset_screenshot_save_path r"
  by (cases rd)
    (simp add: after_data_info_def crawl_related_models_or_collections_def Let_def
      split: sum.split)

lemma extract_related_data_error:
  "fst (extract_related_data ct p r) = fst (extract_related_data ct p r')"
  using after_data_info_error
  by (cases "hard_readings ct p") (auto simp: extract_related_data_halves)

lemma extract_related_data_keeps:
  "link (snd (extract_related_data ct p r)) = link r
   \<and> paper_screenshot_save_path (snd (extract_related_data ct p r)) = paper_screenshot_save_path r
   \<and> dataset_screenshot_save_path (snd (extract_related_data ct p r))
       = dataset_screenshot_save_path r"
proof (cases "hard_readings ct p")
  case (Inl e)
  then show ?thesis by (simp add: extract_related_data_halves)
next
  case (Inr rd)
  show ?thesis
    using after_data_info_keeps [of ct p rd
        "case data_info_of p of Inl e \<Rightarrow> r | Inr di \<Rightarrow> r\<lparr>dataset_info := Some di\<rparr>"]
    by (simp add: extract_related_data_halves Inr split: sum.split)
qed

text \<open>The outcome of the body of one link, case by case.\<close>

lemma link_body_unfold:
  assumes "get_page (web url) = None"
    and "finish_form (web url) = None"
    and "index_last_but_one (py_split CHR ''/'' url) = Inr org"
    and "save_screenshot (web url) = None"
  shows "link_body ct sd web url d =
     (let name = last (py_split CHR ''/'' url);
          d1 = ensure_entry org name d;
          r = (case get_record d org name of None \<Rightarrow> empty_record | Some r \<Rightarrow> r);
          r' = snd (extract_related_data ct (web url) r);
          d2 = set_record org name r' d1
      in case fst (extract_related_data ct (web url) empty_record) of
           Inl e \<Rightarrow> (Some e, d2)
         | Inr a \<Rightarrow>
             (case paper_screenshot web a of
                Some e \<Rightarrow> (Some e, d2)
              | None \<Rightarrow> (None, set_record org name (final_record sd url name a) d2)))"
proof -
  let ?name = "last (py_split CHR ''/'' url)"
  let ?d1 = "ensure_entry org ?name d"
  let ?r = "case get_record d org ?name of None \<Rightarrow> empty_record | Some r \<Rightarrow> r"
  have g: "get_record ?d1 org ?name = Some ?r"
    by (simp add: get_record_ensure_entry split: option.split)
  obtain res r' where x: "extract_related_data ct (web url) ?r = (res, r')"
    by (cases "extract_related_data ct (web url) ?r")
  have res: "fst (extract_related_data ct (web url) empty_record) = res"
    using extract_related_data_error [of ct "web url" empty_record ?r] x by simp
  show ?thesis
    using assms g x res
    by (cases res) (simp_all add: link_body_def Let_def split: option.split)
qed

lemma link_body_outcome:
  "fst (link_body ct sd web url d) = link_outcome ct web url"
proof (cases "get_page (web url)")
  case (Some e)
  then show ?thesis by (simp add: link_body_def link_outcome_def)
next
  case nav: None
  show ?thesis
  proof (cases "finish_form (web url)")
    case (Some e)
    then show ?thesis using nav by (simp add: link_body_def link_outcome_def)
  next
    case form: None
    show ?thesis
    proof (cases "index_last_but_one (py_split CHR ''/'' url)")
      case (Inl e)
      then show ?thesis using nav form by (simp add: link_body_def link_outcome_def)
    next
      case org: (Inr org)
      show ?thesis
      proof (cases "save_screenshot (web url)")
        case (Some e)
        then show ?thesis using nav form org by (simp add: link_body_def link_outcome_def Let_def)
      next
        case shot: None
        show ?thesis
          unfolding link_body_unfold [where web = web and url = url, OF nav form org shot]
          using nav form org shot
          by (simp add: link_outcome_def Let_def split: sum.split option.split)
      qed
    qed
  qed
qed

lemma link_body_success:
  assumes "link_body ct sd web url d = (None, d')"
  shows "\<exists>org a. index_last_but_one (py_split CHR ''/'' url) = Inr org
     \<and> fst (extract_related_data ct (web url) empty_record) = Inr a
     \<and> get_record d' org (last (py_split CHR ''/'' url))
         = Some (final_record sd url (last (py_split CHR ''/'' url)) a)"
proof -
  have o: "link_outcome ct web url = None"
    using link_body_outcome [of ct sd web url d] assms by simp
  have nav: "get_page (web url) = None"
    using o by (auto simp: link_outcome_def split: option.splits)
  have form: "finish_form (web url) = None"
    using o nav by (auto simp: link_outcome_def split: option.splits)
  obtain org where org: "index_last_but_one (py_split CHR ''/'' url) = Inr org"
    using o nav form by (auto simp: link_outcome_def split: sum.splits)
  have shot: "save_screenshot (web url) = None"
    using o nav form org by (auto simp: link_outcome_def split: option.splits)
  obtain a where a: "fst (extract_related_data ct (web url) empty_record) = Inr a"
    using o nav form org shot by (auto simp: link_outcome_def split: sum.splits)
  have paper: "paper_screenshot web a = None"
    using o nav form org shot a by (simp add: link_outcome_def)
  let ?name = "last (py_split CHR ''/'' url)"
  let ?d1 = "ensure_entry org ?name d"
  let ?r' = "snd (extract_related_data ct (web url)
                (case get_record d org ?name of None \<Rightarrow> empty_record | Some r \<Rightarrow> r))"
  let ?d2 = "set_record org ?name ?r' ?d1"
  have d': "d' = set_record org ?name (final_record sd url ?name a) ?d2"
    using assms a paper unfolding link_body_unfold [where web = web and url = url, OF nav form org shot] by (simp add: Let_def)
  have "dict_get ?d2 org \<noteq> None"
    by (simp add: dict_get_set_record dict_get_ensure_entry)
  then have "get_record d' org ?name = Some (final_record sd url ?name a)"
    unfolding d' by (simp add: get_record_set_record)
  then show ?thesis using org a by blast
qed

lemma populated_set_record:
  assumes "dict_get d org \<noteq> None"
    and "populated d o' n'"
    and "populated d org name \<longrightarrow>
         link r \<noteq> None \<and> paper_screenshot_save_path r \<noteq> None
         \<and> dataset_screenshot_save_path r \<noteq> None"
  shows "populated (set_record org name r d) o' n'"
  using assms by (auto simp: populated_def get_record_set_record split: option.splits)

lemma populated_ensure_entry:
  "populated d o' n' \<Longrightarrow> populated (ensure_entry org name d) o' n'"
  by (auto simp: populated_def get_record_ensure_entry split: option.splits)

lemma populated_final_record:
  "link (final_record sd url name a) \<noteq> None
   \<and> paper_screenshot_save_path (final_record sd url name a) \<noteq> None
   \<and> dataset_screenshot_save_path (final_record sd url name a) \<noteq> None"
  by (simp add: final_record_def)

lemma link_body_populated:
  assumes "populated d o' n'"
  shows "populated (snd (link_body ct sd web url d)) o' n'"
proof (cases "get_page (web url)")
  case (Some e)
  then show ?thesis using assms by (simp add: link_body_def)
next
  case nav: None
  show ?thesis
  proof (cases "finish_form (web url)")
    case (Some e)
    then show ?thesis using nav assms by (simp add: link_body_def)
  next
    case form: None
    show ?thesis
    proof (cases "index_last_but_one (py_split CHR ''/'' url)")
      case (Inl e)
      then show ?thesis using nav form assms by (simp add: link_body_def)
    next
      case org: (Inr org)
      let ?name = "last (py_split CHR ''/'' url)"
      let ?d1 = "ensure_entry org ?name d"
      have p1: "populated ?d1 o' n'"
        using assms by (rule populated_ensure_entry)
      show ?thesis
      proof (cases "save_screenshot (web url)")
        case (Some e)
        then show ?thesis using nav form org p1 by (simp add: link_body_def Let_def)
      next
        case shot: None
        let ?r = "case get_record d org ?name of None \<Rightarrow> empty_record | Some r \<Rightarrow> r"
        let ?r' = "snd (extract_related_data ct (web url) ?r)"
        let ?d2 = "set_record org ?name ?r' ?d1"
        have g: "get_record ?d1 org ?name = Some ?r"
          by (simp add: get_record_ensure_entry split: option.split)
        have keep: "populated ?d1 org ?name \<longrightarrow>
            link ?r' \<noteq> None \<and> paper_screenshot_save_path ?r' \<noteq> None
            \<and> dataset_screenshot_save_path ?r' \<noteq> None"
          using extract_related_data_keeps [of ct "web url" ?r] g
          by (simp add: populated_def)
        have p2: "populated ?d2 o' n'"
          using populated_set_record [OF dict_get_ensure_entry p1 keep] .
        have e2: "dict_get ?d2 org \<noteq> None"
          by (simp add: dict_get_set_record dict_get_ensure_entry)
        have p3: "populated (set_record org ?name (final_record sd url ?name a) ?d2) o' n'" for a
          using populated_set_record [OF e2 p2] populated_final_record by blast
        show ?thesis
        proof (cases "fst (extract_related_data ct (web url) empty_record)")
          case (Inl e)
          then show ?thesis
            unfolding link_body_unfold [where web = web and url = url, OF nav form org shot]
            using p2 by (simp add: Let_def)
        next
          case (Inr a)
          then show ?thesis
            unfolding link_body_unfold [where web = web and url = url, OF nav form org shot]
            using p2 p3 [of a] by (cases "paper_screenshot web a") (simp_all add: Let_def)
        qed
      qed
    qed
  qed
qed

lemma links_loop_exceptions:
  "snd (links_loop ct sd web links (d, ex))
     = ex @ filter (\<lambda>u. fst (link_body ct sd web u []) \<noteq> None) links"
proof (induction links arbitrary: d ex)
  case Nil
  then show ?case by simp
next
  case (Cons u links)
  obtain res d' where b: "link_body ct sd web u d = (res, d')"
    by (cases "link_body ct sd web u d")
  have "fst (link_body ct sd web u []) = res"
    using link_body_outcome [of ct sd web u d] link_body_outcome [of ct sd web u "[]"] b by simp
  then show ?case
    using b Cons.IH by (cases res) simp_all
qed

lemma links_loop_populated:
  "populated d o' n' \<Longrightarrow> populated (fst (links_loop ct sd web links (d, ex))) o' n'"
proof (induction links arbitrary: d ex)
  case Nil
  then show ?case by simp
next
  case (Cons u links)
  obtain res d' where b: "link_body ct sd web u d = (res, d')"
    by (cases "link_body ct sd web u d")
  have "populated d' o' n'"
    using link_body_populated [OF Cons.prems, of ct sd web u] b by simp
  then show ?case
    using b Cons.IH by (cases res) simp_all
qed

lemma link_body_success_populated:
  assumes "link_body ct sd web url d = (None, d')"
  shows "\<exists>org. index_last_but_one (py_split CHR ''/'' url) = Inr org
     \<and> populated d' org (last (py_split CHR ''/'' url))"
  using link_body_success [OF assms] populated_final_record
  by (fastforce simp: populated_def)

lemma links_loop_covers:
  assumes "u \<in> set links" and "fst (link_body ct sd web u []) = None"
  shows "\<exists>org. index_last_but_one (py_split CHR ''/'' u) = Inr org
     \<and> populated (fst (links_loop ct sd web links (d, ex))) org (last (py_split CHR ''/'' u))"
  using assms
proof (induction links arbitrary: d ex)
  case Nil
  then show ?case by simp
next
  case (Cons x links)
  obtain res d' where b: "link_body ct sd web x d = (res, d')"
    by (cases "link_body ct sd web x d")
  let ?ex' = "case res of None \<Rightarrow> ex | Some e \<Rightarrow> ex @ [x]"
  have step: "links_loop ct sd web (x # links) (d, ex) = links_loop ct sd web links (d', ?ex')"
    using b by (cases res) simp_all
  show ?case
  proof (cases "x = u")
    case True
    have "res = None"
      using link_body_outcome [of ct sd web u d] link_body_outcome [of ct sd web u "[]"]
        b Cons.prems(2) True by simp
    then obtain org where org: "index_last_but_one (py_split CHR ''/'' u) = Inr org"
      "populated d' org (last (py_split CHR ''/'' u))"
      using link_body_success_populated [of ct sd web u d d'] b True by auto
    show ?thesis
      unfolding step using org links_loop_populated by blast
  next
    case False
    then have "u \<in> set links" using Cons.prems(1) by simp
    then show ?thesis
      unfolding step using Cons.IH Cons.prems(2) by blast
  qed
qed

text \<open>
  Claim C1, as the code has it. Once the login has succeeded, the run returns, and for
  every processed link at least one of the two outcomes holds: the link is in the list
  of exception links, or an entry carrying the link and both screenshot paths is stored
  under its organization and dataset name. The list of exception links consists of the
  links whose processing raises, in order. The two outcomes do not exclude each other:
  the entry is created before the extraction starts and is not removed when it raises.
\<close>

theorem link_is_recorded_or_listed:
  assumes "login env = None"
  shows "\<exists>d ex. get_all_link_data clean_text save_dir env links = Inr (d, ex)
     \<and> ex = filter (\<lambda>u. fst (link_body clean_text save_dir (page_of env) u []) \<noteq> None) links
     \<and> (\<forall>u\<in>set links.
           u \<in> set ex
           \<or> (\<exists>organization r.
                 index_last_but_one (py_split CHR ''/'' u) = Inr organization
               \<and> get_record d organization (last (py_split CHR ''/'' u)) = Some r
               \<and> link r \<noteq> None
               \<and> paper_screenshot_save_path r \<noteq> None
               \<and> dataset_screenshot_save_path r \<noteq> None))"
proof -
  let ?web = "page_of env"
  let ?out = "links_loop clean_text save_dir ?web links ([], [])"
  let ?raises = "\<lambda>u. fst (link_body clean_text save_dir ?web u []) \<noteq> None"
  have run: "get_all_link_data clean_text save_dir env links = Inr (fst ?out, snd ?out)"
    using assms by (simp add: get_all_link_data_def)
  have ex: "snd ?out = filter ?raises links"
    using links_loop_exceptions [of clean_text save_dir ?web links "[]" "[]"] by simp
  have each: "u \<in> set (snd ?out)
      \<or> (\<exists>organization r.
            index_last_but_one (py_split CHR ''/'' u) = Inr organization
          \<and> get_record (fst ?out) organization (last (py_split CHR ''/'' u)) = Some r
          \<and> link r \<noteq> None \<and> paper_screenshot_save_path r \<noteq> None
          \<and> dataset_screenshot_save_path r \<noteq> None)"
    if u: "u \<in> set links" for u
  proof (cases "?raises u")
    case True
    then show ?thesis using u ex by simp
  next
    case False
    then obtain org where org: "index_last_but_one (py_split CHR ''/'' u) = Inr org"
      "populated (fst ?out) org (last (py_split CHR ''/'' u))"
      using links_loop_covers [OF u, of clean_text save_dir ?web "[]" "[]"] by auto
    then show ?thesis
      by (auto simp: populated_def split: option.splits)
  qed
  show ?thesis
    using run ex each by (intro exI [of _ "fst ?out"] exI [of _ "snd ?out"]) simp
qed

text \<open>
  Claim C10. For two links that are processed without an exception and whose URLs end in
  the same path segment, whatever their organizations, the stored
  \<open>dataset_screenshot_save_path\<close> is the same, namely the path built from the save
  directory and that segment; and when an identifier of a paper is found for both, the
  stored \<open>paper_screenshot_save_path\<close> is the same as well.
\<close>

theorem screenshot_paths_ignore_organization:
  assumes "link_body clean_text save_dir web u1 d1 = (None, d1')"
    and "link_body clean_text save_dir web u2 d2 = (None, d2')"
    and "last (py_split CHR ''/'' u1) = last (py_split CHR ''/'' u2)"
  shows "\<exists>o1 o2 r1 r2 a1 a2.
       index_last_but_one (py_split CHR ''/'' u1) = Inr o1
     \<and> index_last_but_one (py_split CHR ''/'' u2) = Inr o2
     \<and> get_record d1' o1 (last (py_split CHR ''/'' u1)) = Some r1
     \<and> get_record d2' o2 (last (py_split CHR ''/'' u2)) = Some r2
     \<and> fst (extract_related_data clean_text (web u1) empty_record) = Inr a1
     \<and> fst (extract_related_data clean_text (web u2) empty_record) = Inr a2
     \<and> dataset_screenshot_save_path r1 = Some (dataset_png save_dir (last (py_split CHR ''/'' u1)))
     \<and> dataset_screenshot_save_path r2 = dataset_screenshot_save_path r1
     \<and> (a1 \<noteq> [] \<and> a2 \<noteq> [] \<longrightarrow>
          paper_screenshot_save_path r1 = Some (paper_png save_dir (last (py_split CHR ''/'' u1)))
          \<and> paper_screenshot_save_path r2 = paper_screenshot_save_path r1)"
proof -
  let ?n1 = "last (py_split CHR ''/'' u1)"
  let ?n2 = "last (py_split CHR ''/'' u2)"
  obtain o1 a1 where 1: "index_last_but_one (py_split CHR ''/'' u1) = Inr o1"
    "fst (extract_related_data clean_text (web u1) empty_record) = Inr a1"
    "get_record d1' o1 ?n1 = Some (final_record save_dir u1 ?n1 a1)"
    using link_body_success [OF assms(1)] by blast
  obtain o2 a2 where 2: "index_last_but_one (py_split CHR ''/'' u2) = Inr o2"
    "fst (extract_related_data clean_text (web u2) empty_record) = Inr a2"
    "get_record d2' o2 ?n2 = Some (final_record save_dir u2 ?n2 a2)"
    using link_body_success [OF assms(2)] by blast
  show ?thesis
    using 1 2 assms(3)
    by (intro exI [of _ o1] exI [of _ o2] exI [of _ "final_record save_dir u1 ?n1 a1"]
        exI [of _ "final_record save_dir u2 ?n2 a2"] exI [of _ a1] exI [of _ a2])
      (simp add: final_record_def)
qed

section \<open>Runs of \<open>_get_all_link_data\<close> on the example webs\<close>

lemma gsm8k_link_run:
  "fst (link_body py_strip ''result/huggingface'' example_pages
          ''https://huggingface.co/datasets/openai/gsm8k'' []) = None"
  by code_simp

lemma other_link_run:
  "fst (link_body py_strip ''result/huggingface'' example_pages
          ''https://huggingface.co/datasets/openai/other'' [])
     = Some (WebDriverException ''timeout'')"
  by code_simp

lemma gsm8k_segments:
  "index_last_but_one (py_split CHR ''/'' ''https://huggingface.co/datasets/openai/gsm8k'')
     = Inr ''openai''
   \<and> last (py_split CHR ''/'' ''https://huggingface.co/datasets/openai/gsm8k'') = ''gsm8k''"
  by code_simp

lemma mirror_segments:
  "index_last_but_one (py_split CHR ''/'' ''https://huggingface.co/datasets/mirror/gsm8k'')
     = Inr ''mirror''
   \<and> last (py_split CHR ''/'' ''https://huggingface.co/datasets/mirror/gsm8k'') = ''gsm8k''"
  by code_simp

text \<open>Two links on the example web: the first is recorded, the second does not load
  and is listed.\<close>

theorem link_is_recorded_or_listed_witness:
  "\<exists>d ex. get_all_link_data py_strip ''result/huggingface'' example_extraction_env
             [''https://huggingface.co/datasets/openai/gsm8k'',
              ''https://huggingface.co/datasets/openai/other''] = Inr (d, ex)
     \<and> ex = [''https://huggingface.co/datasets/openai/other'']
     \<and> (\<exists>r. get_record d ''openai'' ''gsm8k'' = Some r \<and> link r \<noteq> None
            \<and> paper_screenshot_save_path r \<noteq> None
            \<and> dataset_screenshot_save_path r \<noteq> None)"
proof -
  have l: "login example_extraction_env = None"
    and p: "page_of example_extraction_env = example_pages"
    by (simp_all add: example_extraction_env_def)
  show ?thesis
    using link_is_recorded_or_listed [OF l, of py_strip "''result/huggingface''"
        "[''https://huggingface.co/datasets/openai/gsm8k'',
          ''https://huggingface.co/datasets/openai/other'']"]
    unfolding p
    by (auto simp: gsm8k_link_run other_link_run index_last_but_one_def)
qed

text \<open>
  Claim C1 as stated fails: both outcomes can hold for one link. When the text of the
  summary panel cannot be read, the link is listed as an exception and its entry, already
  holding the data-info facts, stays in the output mapping; nothing in that run depends
  on what \<open>clean_text\<close> returns. When the page of the paper does not load, the link is
  listed as an exception and its entry holds every extracted field.
\<close>

theorem failed_link_leaves_its_entry:
  "get_all_link_data py_strip ''result/huggingface''
     \<lparr>login = None, page_of = stale_panel_pages\<rparr>
     [''https://huggingface.co/datasets/openai/gsm8k'']
   = Inr ([(''openai'',
            [(''gsm8k'',
              empty_record\<lparr>dataset_info := Some [(''Number of rows:'', ''17,584'')]\<rparr>)])],
          [''https://huggingface.co/datasets/openai/gsm8k''])
   \<and> get_all_link_data py_strip ''result/huggingface''
     \<lparr>login = None, page_of = no_paper_pages\<rparr>
     [''https://huggingface.co/datasets/openai/gsm8k'']
   = Inr ([(''openai'',
            [(''gsm8k'',
              \<lparr>link = None,
               dataset_tags_info = Some [(''License'', ''mit''), (''ArXiv'', ''2110.14168'')],
               download_count_last_month = Some ''412,135'',
               community = Some ''0'',
               like = Some ''57'',
               dataset_info = Some [(''Number of rows:'', ''17,584'')],
               dataset_panel_info = Some ''Dataset Card for GSM8K'',
               related_models_collections =
                 Some [(''Models trained on openai/gsm8k'',
                        [(''meta-llama/Llama-3'',
                          [(''href'', ''/meta-llama/Llama-3''),
                           (''text'', ''Text Generation'')])])],
               paper_screenshot_save_path = None,
               dataset_screenshot_save_path = None\<rparr>)])],
          [''https://huggingface.co/datasets/openai/gsm8k''])"
  by code_simp

text \<open>
  Claim C2 on the example page. The extraction assembles the tags, the download count,
  the two counters, the data-info facts, the summary and the related artifacts in the
  entry. The record that is finally stored under the organization and the dataset name
  holds the link and the two screenshot paths and none of those fields: line 237 resets
  the entry to the empty dictionary after the extraction.
\<close>

theorem successful_record_has_lost_extracted_fields:
  "extract_related_data py_strip gsm8k_page empty_record
   = (Inr ''2110.14168'',
      \<lparr>link = None,
       dataset_tags_info = Some [(''License'', ''mit''), (''ArXiv'', ''2110.14168'')],
       download_count_last_month = Some ''412,135'',
       community = Some ''0'',
       like = Some ''57'',
       dataset_info = Some [(''Number of rows:'', ''17,584'')],
       dataset_panel_info = Some ''Dataset Card for GSM8K'',
       related_models_collections =
         Some [(''Models trained on openai/gsm8k'',
                [(''meta-llama/Llama-3'',
                  [(''href'', ''/meta-llama/Llama-3''), (''text'', ''Text Generation'')])])],
       paper_screenshot_save_path = None,
       dataset_screenshot_save_path = None\<rparr>)
   \<and> get_all_link_data py_strip ''result/huggingface'' example_extraction_env
       [''https://huggingface.co/datasets/openai/gsm8k'']
   = Inr ([(''openai'',
            [(''gsm8k'',
              \<lparr>link = Some ''https://huggingface.co/datasets/openai/gsm8k'',
               dataset_tags_info = None,
               download_count_last_month = None,
               community = None,
               like = None,
               dataset_info = None,
               dataset_panel_info = None,
               related_models_collections = None,
               paper_screenshot_save_path =
                 Some ''result/huggingface/hugging_face_dataset_info_screenshots/gsm8k_pdf.png'',
               dataset_screenshot_save_path =
                 Some ''result/huggingface/hugging_face_dataset_info_screenshots/gsm8k.png''\<rparr>)])],
          [])"
  by code_simp

text \<open>The same holds for every link that is processed without an exception.\<close>

lemma successful_record_is_final_record:
  assumes "link_body ct sd web url d = (None, d')"
  shows "\<exists>org r. index_last_but_one (py_split CHR ''/'' url) = Inr org
     \<and> get_record d' org (last (py_split CHR ''/'' url)) = Some r
     \<and> link r = Some url
     \<and> dataset_tags_info r = None \<and> download_count_last_month r = None
     \<and> community r = None \<and> like r = None \<and> dataset_info r = None
     \<and> dataset_panel_info r = None \<and> related_models_collections r = None"
  using link_body_success [OF assms]
  by (fastforce simp: final_record_def empty_record_def)

text \<open>Two organizations with a dataset of the same name.\<close>

theorem screenshot_paths_ignore_organization_witness:
  "\<exists>r1 r2.
       get_record (snd (link_body py_strip ''result/huggingface'' mirror_pages
                          ''https://huggingface.co/datasets/openai/gsm8k'' []))
         ''openai'' ''gsm8k'' = Some r1
     \<and> get_record (snd (link_body py_strip ''result/huggingface'' mirror_pages
                          ''https://huggingface.co/datasets/mirror/gsm8k'' []))
         ''mirror'' ''gsm8k'' = Some r2
     \<and> dataset_screenshot_save_path r2 = dataset_screenshot_save_path r1
     \<and> paper_screenshot_save_path r2 = paper_screenshot_save_path r1"
proof -
  let ?u1 = "''https://huggingface.co/datasets/openai/gsm8k''"
  let ?u2 = "''https://huggingface.co/datasets/mirror/gsm8k''"
  let ?b1 = "link_body py_strip ''result/huggingface'' mirror_pages ?u1 []"
  let ?b2 = "link_body py_strip ''result/huggingface'' mirror_pages ?u2 []"
  have "fst ?b1 = None" by code_simp
  then have 1: "?b1 = (None, snd ?b1)" by (metis prod.collapse)
  have "fst ?b2 = None" by code_simp
  then have 2: "?b2 = (None, snd ?b2)" by (metis prod.collapse)
  have n: "last (py_split CHR ''/'' ?u1) = last (py_split CHR ''/'' ?u2)"
    by (simp add: gsm8k_segments mirror_segments)
  have w: "mirror_pages ?u1 = gsm8k_page" "mirror_pages ?u2 = gsm8k_page"
    by (simp_all add: mirror_pages_def)
  show ?thesis
    using screenshot_paths_ignore_organization [OF 1 2 n]
    unfolding w by (auto simp: index_last_but_one_def gsm8k_run)
qed

end
